(* ===== verification/Prelude.thy ===== *)
theory Prelude
  imports Main "HOL-Library.Word"
begin

text \<open>
  Shared vocabulary of the development. JavaScript strings are sequences of UTF-16
  code units, so a string of the program is a list of \<open>16 word\<close> values
  (\<open>jstr\<close>); \<open>js\<close> turns an ASCII literal of the source into that form.
  File contents are byte lists, chat identifiers are integers. The generic list
  lemmas the components share (prefix tests, scanning positions of a string)
  are collected here, with the rules that evaluate literals put into the
  \<open>js_lit\<close> collection and the simpset.
\<close>

type_synonym cu = "16 word"
type_synonym jstr = "cu list"
type_synonym byte = "8 word"
type_synonym chat_id = int

named_theorems js_lit "rules that evaluate code-unit literals"

definition js :: "string \<Rightarrow> jstr" where
  "js s = map (\<lambda>c. word_of_nat (of_char c)) s"

text \<open>
  \<open>starts_with p s\<close>: the string \<open>s\<close> begins with \<open>p\<close>. A regular expression
  that matches a literal at the current position performs exactly this test.
\<close>

fun starts_with :: "'a list \<Rightarrow> 'a list \<Rightarrow> bool" where
  "starts_with [] s = True"
| "starts_with (p # ps) [] = False"
| "starts_with (p # ps) (c # cs) = (p = c \<and> starts_with ps cs)"

text \<open>\<open>join_with d xs\<close>: the strings of \<open>xs\<close> separated by \<open>d\<close> (JavaScript's \<^verbatim>\<open>Array.prototype.join\<close>).\<close>

fun join_with :: "'a list \<Rightarrow> 'a list list \<Rightarrow> 'a list" where
  "join_with d [] = []"
| "join_with d [x] = x"
| "join_with d (x # y # ys) = x @ d @ join_with d (y # ys)"

lemma js_Nil [simp, js_lit]: "js [] = []"
  by (simp add: js_def)

lemma js_Cons [simp, js_lit]: "js (c # s) = word_of_nat (of_char c) # js s"
  by (simp add: js_def)

lemma js_append [simp]: "js (s @ t) = js s @ js t"
  by (simp add: js_def)

lemma length_js [simp]: "length (js s) = length s"
  by (simp add: js_def)

lemma starts_with_iff: "starts_with p s \<longleftrightarrow> (\<exists>r. s = p @ r)"
  by (induction p s rule: starts_with.induct) auto

lemma starts_with_append [simp]: "starts_with p (p @ r)"
  by (simp add: starts_with_iff)

lemma starts_with_drop: "starts_with p s \<Longrightarrow> s = p @ drop (length p) s"
  by (auto simp: starts_with_iff)

lemma starts_with_append_iff:
  "length p \<le> length q \<Longrightarrow> starts_with p (q @ r) \<longleftrightarrow> starts_with p q"
  by (induction p q rule: starts_with.induct) auto

text \<open>Scanning the positions of a string: the suffixes reached by dropping a prefix.\<close>

lemma All_le_Suc2: "(\<forall>i\<le>Suc n. P i) \<longleftrightarrow> P 0 \<and> (\<forall>i\<le>n. P (Suc i))"
  by (metis Suc_le_mono le0 not0_implies_Suc)

lemma ex_drop_iff: "(\<exists>i\<le>length t. P (drop i t)) \<longleftrightarrow> (\<exists>pre s. t = pre @ s \<and> P s)"
proof
  assume "\<exists>i\<le>length t. P (drop i t)"
  then obtain i where "P (drop i t)" by blast
  then show "\<exists>pre s. t = pre @ s \<and> P s"
    by (metis append_take_drop_id)
next
  assume "\<exists>pre s. t = pre @ s \<and> P s"
  then obtain pre s where "t = pre @ s" and "P s" by blast
  then show "\<exists>i\<le>length t. P (drop i t)"
    by (intro exI [of _ "length pre"]) simp
qed

lemma join_with_Cons: "join_with d (x # xs) = x @ (case xs of [] \<Rightarrow> [] | _ \<Rightarrow> d @ join_with d xs)"
  by (cases xs) auto

lemma last_not_in_set: "xs \<noteq> [] \<Longrightarrow> x \<notin> set xs \<Longrightarrow> last xs \<noteq> x"
  by (metis last_in_set)

lemma list_all_update: "list_all P xs \<Longrightarrow> P x \<Longrightarrow> list_all P (xs[i := x])"
  by (auto simp: list_all_iff dest: set_update_subset_insert [THEN subsetD])

lemma map_update_same [simp]: "i < length xs \<Longrightarrow> x = f (xs ! i) \<Longrightarrow> (map f xs)[i := x] = map f xs"
  by (simp add: list_eq_iff_nth_eq nth_list_update)

lemma list_all_nth: "list_all P xs \<Longrightarrow> i < length xs \<Longrightarrow> P (xs ! i)"
  by (simp add: list_all_length)

end
