(* ===== verification/Chat.thy ===== *)
theory Chat
  imports Prelude
begin

text \<open>
  The chat-protocol boundary (the Telegraf context object of
  \<^verbatim>\<open>src/ytdl-t.m.js\<close>): the requests the bot issues to the chat service, as a
  datatype with one constructor per context method the source calls, and the
  fixed texts of the source's replies, code unit for code unit (emoji outside
  the Basic Multilingual Plane are two code units, a surrogate pair).
\<close>

text \<open>\<^verbatim>\<open>Markup.button.callback(label, data)\<close>: a button whose press sends \<open>data\<close> back.\<close>

datatype button = CallbackButton (btn_label: jstr) (btn_data: jstr)

text \<open>
  One request to the chat service: \<^verbatim>\<open>ctx.reply(text)\<close>,
  \<^verbatim>\<open>ctx.reply(text, Markup.inlineKeyboard(rows))\<close>, \<^verbatim>\<open>ctx.answerCbQuery()\<close>,
  \<^verbatim>\<open>ctx.replyWithAudio({source}, {title})\<close> and
  \<^verbatim>\<open>ctx.replyWithVideo({source}, {caption})\<close>; an attachment carries the bytes
  read from its source file.
\<close>

datatype outmsg =
    Reply chat_id jstr
  | ReplyKeyboard chat_id jstr "button list list"
  | AnswerCbQuery chat_id
  | ReplyAudio chat_id "byte list" jstr
  | ReplyVideo chat_id "byte list" jstr

definition greeting_msg :: jstr where
  "greeting_msg = js ''Send me a YouTube link and choose Audio or Video! '' @ [0xD83D, 0xDCE5]"

definition invalid_link_msg :: jstr where
  "invalid_link_msg = [0x2757] @ js '' Please send a valid YouTube link.''"

definition choice_prompt_msg :: jstr where
  "choice_prompt_msg = js ''Do you want to download as video or audio?''"

definition video_label :: jstr where
  "video_label = [0xD83C, 0xDFA5] @ js '' Video''"

definition audio_label :: jstr where
  "audio_label = [0xD83C, 0xDFB5] @ js '' Audio''"

definition info_failed_msg :: jstr where
  "info_failed_msg = [0x274C] @ js '' Failed to get video info.''"

definition downloading_msg :: jstr where
  "downloading_msg = [0x23F3] @ js '' Downloading... Please wait.''"

definition download_error_msg :: jstr where
  "download_error_msg = [0x274C] @ js '' Error downloading the file.''"

definition setup_error_msg :: jstr where
  "setup_error_msg = [0x274C] @ js '' Something went wrong. Try again.''"

definition bot_error_msg :: jstr where
  "bot_error_msg = [0x274C] @ js '' Bot error!''"

lemmas reply_texts =
  greeting_msg_def invalid_link_msg_def choice_prompt_msg_def video_label_def audio_label_def
  info_failed_msg_def downloading_msg_def download_error_msg_def setup_error_msg_def
  bot_error_msg_def

end
