(* ===== verification/Callback_Token.thy ===== *)
theory Callback_Token
  imports Chat
begin

text \<open>
  The callback token (\<^verbatim>\<open>src/ytdl-t.m.js\<close>, lines 27 and 32--33): the text handler
  serialises the chosen media type and the video identifier into a button's
  callback data as \<^verbatim>\<open>`video_${videoId}`\<close> or \<^verbatim>\<open>`audio_${videoId}`\<close>; the
  action handler is registered for the regular expression
  \<^verbatim>\<open>/^(video|audio)_(.+)$/\<close> and decodes the pair from its groups. The regular
  expression is modelled as a matcher over code units: each alternative is a
  literal test followed by the group \<^verbatim>\<open>(.+)$\<close>, which takes a non-empty rest of
  the string free of line terminators (\<^verbatim>\<open>.\<close> matches no line terminator
  without the \<^verbatim>\<open>s\<close> flag, and \<^verbatim>\<open>$\<close> without \<^verbatim>\<open>m\<close> only the end).
\<close>

datatype media = Video | Audio

definition media_tag :: "media \<Rightarrow> jstr" where
  "media_tag k = (case k of Video \<Rightarrow> js ''video'' | Audio \<Rightarrow> js ''audio'')"

definition cb_data :: "media \<Rightarrow> jstr \<Rightarrow> jstr" where
  "cb_data k vid = media_tag k @ js ''_'' @ vid"

text \<open>ECMAScript's LineTerminator: LF, CR, LINE SEPARATOR, PARAGRAPH SEPARATOR.\<close>

definition is_line_terminator :: "cu \<Rightarrow> bool" where
  "is_line_terminator c \<longleftrightarrow> c = 0x0A \<or> c = 0x0D \<or> c = 0x2028 \<or> c = 0x2029"

definition rest_group :: "jstr \<Rightarrow> jstr option" where
  "rest_group r = (if r \<noteq> [] \<and> \<not> list_ex is_line_terminator r then Some r else None)"

definition action_alt :: "media \<Rightarrow> jstr \<Rightarrow> (media \<times> jstr) option" where
  "action_alt k s =
     (let p = media_tag k @ js ''_'' in
      if starts_with p s then map_option (Pair k) (rest_group (drop (length p) s)) else None)"

definition action_match :: "jstr \<Rightarrow> (media \<times> jstr) option" where
  "action_match s =
     (case action_alt Video s of Some m \<Rightarrow> Some m | None \<Rightarrow> action_alt Audio s)"

text \<open>A token payload survives the regular expression when it is non-empty and on one line.\<close>

definition token_payload :: "jstr \<Rightarrow> bool" where
  "token_payload v \<longleftrightarrow> v \<noteq> [] \<and> \<not> list_ex is_line_terminator v"

lemma length_media_tag [simp]: "length (media_tag k) = 5"
  by (cases k) (simp_all add: media_tag_def)

lemma media_tag_distinct: "\<not> starts_with (media_tag Video @ js ''_'') (media_tag Audio @ r)"
  by (simp add: media_tag_def)

lemma rest_group_Some: "rest_group r = Some g \<longleftrightarrow> token_payload r \<and> g = r"
  by (auto simp: rest_group_def token_payload_def)

lemma action_alt_Some:
  "action_alt k s = Some (k', v) \<longleftrightarrow> k' = k \<and> s = cb_data k v \<and> token_payload v"
  by (auto simp: action_alt_def cb_data_def rest_group_def token_payload_def starts_with_iff)

lemma action_alt_cb_data_other:
  "action_alt Video (cb_data Audio v) = None"
proof -
  have "\<not> starts_with (media_tag Video @ js ''_'') (cb_data Audio v)"
    using media_tag_distinct by (simp add: cb_data_def)
  then show ?thesis by (simp add: action_alt_def)
qed

lemma cb_data_inject [simp]: "cb_data k v = cb_data k' v' \<longleftrightarrow> k = k' \<and> v = v'"
  by (cases k; cases k') (simp_all add: cb_data_def media_tag_def)

lemma action_alt_cb_data: "token_payload v \<Longrightarrow> action_alt k (cb_data k v) = Some (k, v)"
  by (simp add: action_alt_Some)

lemma action_match_Some_iff:
  "action_match s = Some (k, v) \<longleftrightarrow> s = cb_data k v \<and> token_payload v"
proof (cases k)
  case Video
  then show ?thesis
    by (auto simp: action_match_def action_alt_Some action_alt_cb_data split: option.splits)
next
  case Audio
  then show ?thesis
    by (auto simp: action_match_def action_alt_Some action_alt_cb_data_other
        split: option.splits)
qed

text \<open>
  C3: decoding the callback data of a button recovers the media type and the
  video identifier the text handler put into it, for every identifier that is
  non-empty and free of line terminators.
\<close>

theorem action_match_cb_data:
  "token_payload v \<Longrightarrow> action_match (cb_data k v) = Some (k, v)"
  by (simp add: action_match_Some_iff)

theorem action_match_cb_data_witness:
  "token_payload (js ''dQw4w9WgXcQ'')
   \<and> action_match (cb_data Audio (js ''dQw4w9WgXcQ'')) = Some (Audio, js ''dQw4w9WgXcQ'')"
proof -
  have h: "token_payload (js ''dQw4w9WgXcQ'')"
    by (simp add: token_payload_def is_line_terminator_def)
  show ?thesis using h action_match_cb_data [OF h, of Audio] by simp
qed

text \<open>
  C4: every string the action handler accepts is the callback data of exactly the
  pair it decodes to: the token is all the session state, and nothing in it is
  lost or invented by the decoder.
\<close>

theorem cb_data_action_match:
  "action_match s = Some (k, v) \<Longrightarrow> cb_data k v = s \<and> token_payload v"
  by (simp add: action_match_Some_iff)

theorem cb_data_action_match_witness:
  "action_match (js ''video_abc12345678'') = Some (Video, js ''abc12345678'')
   \<and> cb_data Video (js ''abc12345678'') = js ''video_abc12345678''
   \<and> token_payload (js ''abc12345678'')"
proof -
  have h: "action_match (js ''video_abc12345678'') = Some (Video, js ''abc12345678'')"
    by (simp add: action_match_def action_alt_def media_tag_def rest_group_def
        is_line_terminator_def)
  show ?thesis using h cb_data_action_match [OF h] by simp
qed

end
