(* ===== verification/Link_Parser.thy ===== *)
theory Link_Parser
  imports Callback_Token
begin

text \<open>
  The link recogniser and the text handler (\<^verbatim>\<open>src/ytdl-t.m.js\<close>, lines 9 and
  15--30). \<^verbatim>\<open>text.match(YT_REGEX)\<close> with the non-global expression
  \<^verbatim>\<open>/(?:youtube\.com\/watch\?v=|youtu\.be\/)([a-zA-Z0-9_-]{11})/\<close> tries every
  start position from the left and returns the first match; at one position it
  tries the first alternative with its group, then (backtracking) the second.
  \<open>yt_alt\<close> is one alternative, \<open>yt_match_at\<close> one position, \<open>yt_exec\<close> the
  scan; \<open>on_text\<close> is the handler, which sends exactly one message.
  The lemmas characterise the matcher against the language of the expression
  (\<open>yt_match_at_iff\<close>), the scan as the leftmost match (\<open>yt_exec_Some_iff\<close>,
  \<open>yt_exec_None_iff\<close>), and the handler's reply on both branches.
\<close>

definition yt_watch_prefix :: jstr where
  "yt_watch_prefix = js ''youtube.com/watch?v=''"

definition yt_short_prefix :: jstr where
  "yt_short_prefix = js ''youtu.be/''"

text \<open>The character class \<^verbatim>\<open>[a-zA-Z0-9_-]\<close>.\<close>

definition is_id_char :: "cu \<Rightarrow> bool" where
  "is_id_char c \<longleftrightarrow>
     (0x61 \<le> c \<and> c \<le> 0x7A) \<or> (0x41 \<le> c \<and> c \<le> 0x5A) \<or> (0x30 \<le> c \<and> c \<le> 0x39)
     \<or> c = 0x5F \<or> c = 0x2D"

definition valid_video_id :: "jstr \<Rightarrow> bool" where
  "valid_video_id g \<longleftrightarrow> length g = 11 \<and> list_all is_id_char g"

text \<open>The group \<^verbatim>\<open>([a-zA-Z0-9_-]{11})\<close> at the current position.\<close>

definition id_group :: "jstr \<Rightarrow> jstr option" where
  "id_group r = (if valid_video_id (take 11 r) then Some (take 11 r) else None)"

definition yt_alt :: "jstr \<Rightarrow> jstr \<Rightarrow> jstr option" where
  "yt_alt p s = (if starts_with p s then id_group (drop (length p) s) else None)"

definition yt_match_at :: "jstr \<Rightarrow> jstr option" where
  "yt_match_at s =
     (case yt_alt yt_watch_prefix s of Some g \<Rightarrow> Some g | None \<Rightarrow> yt_alt yt_short_prefix s)"

fun yt_exec :: "jstr \<Rightarrow> jstr option" where
  "yt_exec [] = yt_match_at []"
| "yt_exec (c # cs) = (case yt_match_at (c # cs) of Some g \<Rightarrow> Some g | None \<Rightarrow> yt_exec cs)"

definition choice_keyboard :: "jstr \<Rightarrow> button list list" where
  "choice_keyboard vid =
     [[CallbackButton video_label (cb_data Video vid), CallbackButton audio_label (cb_data Audio vid)]]"

definition on_text :: "chat_id \<Rightarrow> jstr \<Rightarrow> outmsg list" where
  "on_text c text =
     (case yt_exec text of
        None \<Rightarrow> [Reply c invalid_link_msg]
      | Some vid \<Rightarrow> [ReplyKeyboard c choice_prompt_msg (choice_keyboard vid)])"

subsection \<open>One alternative, one position\<close>

lemma id_group_Some: "id_group r = Some g \<longleftrightarrow> valid_video_id g \<and> (\<exists>r'. r = g @ r')"
proof
  assume "id_group r = Some g"
  then have g: "g = take 11 r" "valid_video_id g"
    by (auto simp: id_group_def split: if_splits)
  then show "valid_video_id g \<and> (\<exists>r'. r = g @ r')"
    by (metis append_take_drop_id)
next
  assume "valid_video_id g \<and> (\<exists>r'. r = g @ r')"
  then show "id_group r = Some g"
    by (auto simp: id_group_def valid_video_id_def)
qed

lemma yt_alt_Some: "yt_alt p s = Some g \<longleftrightarrow> valid_video_id g \<and> (\<exists>r. s = p @ g @ r)"
  by (auto simp: yt_alt_def id_group_Some starts_with_iff)

lemma short_not_watch: "\<not> starts_with yt_watch_prefix (yt_short_prefix @ r)"
  by (simp add: yt_watch_prefix_def yt_short_prefix_def)

lemma yt_alt_watch_short: "yt_alt yt_watch_prefix (yt_short_prefix @ r) = None"
  by (simp add: yt_alt_def short_not_watch)

lemma yt_match_at_iff:
  "yt_match_at s = Some g \<longleftrightarrow>
     valid_video_id g \<and> (\<exists>r. s = yt_watch_prefix @ g @ r \<or> s = yt_short_prefix @ g @ r)"
proof
  assume "yt_match_at s = Some g"
  then show "valid_video_id g \<and> (\<exists>r. s = yt_watch_prefix @ g @ r \<or> s = yt_short_prefix @ g @ r)"
    by (auto simp: yt_match_at_def yt_alt_Some split: option.splits)
next
  assume "valid_video_id g \<and> (\<exists>r. s = yt_watch_prefix @ g @ r \<or> s = yt_short_prefix @ g @ r)"
  then obtain r where v: "valid_video_id g"
    and s: "s = yt_watch_prefix @ g @ r \<or> s = yt_short_prefix @ g @ r" by blast
  from s show "yt_match_at s = Some g"
  proof
    assume "s = yt_watch_prefix @ g @ r"
    with v have "yt_alt yt_watch_prefix s = Some g" by (auto simp: yt_alt_Some)
    then show ?thesis by (simp add: yt_match_at_def)
  next
    assume sh: "s = yt_short_prefix @ g @ r"
    with v have "yt_alt yt_short_prefix s = Some g" by (auto simp: yt_alt_Some)
    moreover from sh have "yt_alt yt_watch_prefix s = None" by (simp add: yt_alt_watch_short)
    ultimately show ?thesis by (simp add: yt_match_at_def)
  qed
qed

subsection \<open>The scan\<close>

lemma yt_exec_None_iff: "yt_exec t = None \<longleftrightarrow> (\<forall>i\<le>length t. yt_match_at (drop i t) = None)"
  by (induction t) (auto simp: All_le_Suc2 split: option.splits)

lemma yt_exec_Some_iff:
  "yt_exec t = Some g \<longleftrightarrow>
     (\<exists>i\<le>length t. yt_match_at (drop i t) = Some g \<and> (\<forall>j<i. yt_match_at (drop j t) = None))"
proof (induction t)
  case Nil
  then show ?case by simp
next
  case (Cons c cs)
  show ?case
  proof (cases "yt_match_at (c # cs)")
    case None
    have "(\<exists>i\<le>length (c # cs). yt_match_at (drop i (c # cs)) = Some g
              \<and> (\<forall>j<i. yt_match_at (drop j (c # cs)) = None))
          \<longleftrightarrow> (\<exists>i\<le>length cs. yt_match_at (drop i cs) = Some g
              \<and> (\<forall>j<i. yt_match_at (drop j cs) = None))"
    proof
      assume "\<exists>i\<le>length (c # cs). yt_match_at (drop i (c # cs)) = Some g
                \<and> (\<forall>j<i. yt_match_at (drop j (c # cs)) = None)"
      then obtain i where i: "i \<le> Suc (length cs)" "yt_match_at (drop i (c # cs)) = Some g"
        "\<forall>j<i. yt_match_at (drop j (c # cs)) = None" by auto
      with None obtain i' where "i = Suc i'" by (cases i) auto
      with i show "\<exists>i\<le>length cs. yt_match_at (drop i cs) = Some g
                     \<and> (\<forall>j<i. yt_match_at (drop j cs) = None)"
        by (intro exI [of _ i']) auto
    next
      assume "\<exists>i\<le>length cs. yt_match_at (drop i cs) = Some g
                \<and> (\<forall>j<i. yt_match_at (drop j cs) = None)"
      then obtain i where i: "i \<le> length cs" "yt_match_at (drop i cs) = Some g"
        "\<forall>j<i. yt_match_at (drop j cs) = None" by auto
      with None show "\<exists>i\<le>length (c # cs). yt_match_at (drop i (c # cs)) = Some g
                \<and> (\<forall>j<i. yt_match_at (drop j (c # cs)) = None)"
        by (intro exI [of _ "Suc i"]) (auto simp: less_Suc_eq_0_disj)
    qed
    with None Cons.IH show ?thesis by simp
  next
    case (Some g')
    have "(\<exists>i\<le>length (c # cs). yt_match_at (drop i (c # cs)) = Some g
              \<and> (\<forall>j<i. yt_match_at (drop j (c # cs)) = None)) \<longleftrightarrow> g' = g"
    proof
      assume "\<exists>i\<le>length (c # cs). yt_match_at (drop i (c # cs)) = Some g
                \<and> (\<forall>j<i. yt_match_at (drop j (c # cs)) = None)"
      then obtain i where i: "yt_match_at (drop i (c # cs)) = Some g"
        "\<forall>j<i. yt_match_at (drop j (c # cs)) = None" by blast
      with Some have "i = 0" by (metis drop0 gr0I option.distinct(1))
      with i Some show "g' = g" by simp
    next
      assume "g' = g"
      with Some show "\<exists>i\<le>length (c # cs). yt_match_at (drop i (c # cs)) = Some g
                \<and> (\<forall>j<i. yt_match_at (drop j (c # cs)) = None)"
        by (intro exI [of _ 0]) simp
    qed
    with Some show ?thesis by simp
  qed
qed

lemma yt_match_at_link:
  "valid_video_id g \<Longrightarrow> p \<in> {yt_watch_prefix, yt_short_prefix} \<Longrightarrow> yt_match_at (p @ g @ r) = Some g"
  by (auto simp: yt_match_at_iff)

lemma link_at_iff:
  "(\<exists>p r. s = p @ g @ r \<and> p \<in> {yt_watch_prefix, yt_short_prefix}) \<and> valid_video_id g
   \<longleftrightarrow> yt_match_at s = Some g"
  by (auto simp: yt_match_at_iff)

lemma yt_exec_leftmost:
  "yt_exec t = Some g \<longleftrightarrow>
     (\<exists>pre s. t = pre @ s \<and> yt_match_at s = Some g
        \<and> (\<forall>pre' s' g'. t = pre' @ s' \<and> yt_match_at s' = Some g' \<longrightarrow> length pre \<le> length pre'))"
proof
  assume "yt_exec t = Some g"
  then obtain i where i: "i \<le> length t" "yt_match_at (drop i t) = Some g"
    "\<forall>j<i. yt_match_at (drop j t) = None"
    by (auto simp: yt_exec_Some_iff)
  have "length (take i t) \<le> length pre'"
    if "t = pre' @ s'" "yt_match_at s' = Some g'" for pre' s' g'
  proof (rule ccontr)
    assume "\<not> length (take i t) \<le> length pre'"
    with i(1) have "length pre' < i" by simp
    with i(3) have "yt_match_at (drop (length pre') t) = None" by blast
    with that show False by simp
  qed
  with i(2) show "\<exists>pre s. t = pre @ s \<and> yt_match_at s = Some g
        \<and> (\<forall>pre' s' g'. t = pre' @ s' \<and> yt_match_at s' = Some g' \<longrightarrow> length pre \<le> length pre')"
    by (metis append_take_drop_id)
next
  assume "\<exists>pre s. t = pre @ s \<and> yt_match_at s = Some g
        \<and> (\<forall>pre' s' g'. t = pre' @ s' \<and> yt_match_at s' = Some g' \<longrightarrow> length pre \<le> length pre')"
  then obtain pre s where t: "t = pre @ s" and m: "yt_match_at s = Some g"
    and least: "\<forall>pre' s' g'. t = pre' @ s' \<and> yt_match_at s' = Some g' \<longrightarrow> length pre \<le> length pre'"
    by blast
  have "yt_match_at (drop j t) = None" if "j < length pre" for j
  proof (cases "yt_match_at (drop j t)")
    case (Some g')
    with least have "length pre \<le> length (take j t)" by (metis append_take_drop_id)
    with that show ?thesis by simp
  qed
  with t m show "yt_exec t = Some g"
    by (auto simp: yt_exec_Some_iff intro!: exI [of _ "length pre"])
qed

lemma occurrence_iff:
  "(\<exists>p r. t = pre @ p @ g @ r \<and> p \<in> {yt_watch_prefix, yt_short_prefix} \<and> valid_video_id g)
   \<longleftrightarrow> (\<exists>s. t = pre @ s \<and> yt_match_at s = Some g)"
proof
  assume "\<exists>p r. t = pre @ p @ g @ r \<and> p \<in> {yt_watch_prefix, yt_short_prefix} \<and> valid_video_id g"
  then obtain p r where "t = pre @ p @ g @ r" "p \<in> {yt_watch_prefix, yt_short_prefix}" "valid_video_id g"
    by blast
  then show "\<exists>s. t = pre @ s \<and> yt_match_at s = Some g"
    by (intro exI [of _ "p @ g @ r"]) (simp add: yt_match_at_link)
next
  assume "\<exists>s. t = pre @ s \<and> yt_match_at s = Some g"
  then obtain s where "t = pre @ s" "yt_match_at s = Some g" by blast
  then show "\<exists>p r. t = pre @ p @ g @ r \<and> p \<in> {yt_watch_prefix, yt_short_prefix} \<and> valid_video_id g"
    by (auto simp flip: link_at_iff)
qed

lemma choice_keyboard_inject [simp]: "choice_keyboard v = choice_keyboard v' \<longleftrightarrow> v = v'"
  by (simp add: choice_keyboard_def)

lemma on_text_prompt: "on_text c t = [ReplyKeyboard c choice_prompt_msg (choice_keyboard g)] \<longleftrightarrow> yt_exec t = Some g"
  by (auto simp: on_text_def split: option.splits)

lemma all_occurrences_iff: "(\<forall>pre' p' g' r'. t = pre' @ p' @ g' @ r' \<and> p' \<in> {yt_watch_prefix, yt_short_prefix}
              \<and> valid_video_id g' \<longrightarrow> length pre \<le> length pre')
        \<longleftrightarrow> (\<forall>pre' s' g'. t = pre' @ s' \<and> yt_match_at s' = Some g' \<longrightarrow> length pre \<le> length pre')"
proof -
  have "(\<forall>pre' p' g' r'. t = pre' @ p' @ g' @ r' \<and> p' \<in> {yt_watch_prefix, yt_short_prefix}
              \<and> valid_video_id g' \<longrightarrow> length pre \<le> length pre')
     \<longleftrightarrow> (\<forall>pre' g'. (\<exists>p' r'. t = pre' @ p' @ g' @ r' \<and> p' \<in> {yt_watch_prefix, yt_short_prefix}
              \<and> valid_video_id g') \<longrightarrow> length pre \<le> length pre')"
    by blast
  also have "\<dots> \<longleftrightarrow> (\<forall>pre' g'. (\<exists>s'. t = pre' @ s' \<and> yt_match_at s' = Some g') \<longrightarrow> length pre \<le> length pre')"
    by (simp only: occurrence_iff)
  also have "\<dots> \<longleftrightarrow> (\<forall>pre' s' g'. t = pre' @ s' \<and> yt_match_at s' = Some g' \<longrightarrow> length pre \<le> length pre')"
    by blast
  finally show ?thesis .
qed

lemma yt_exec_valid_id: "yt_exec t = Some g \<Longrightarrow> valid_video_id g"
  by (induction t) (auto simp: yt_match_at_def yt_alt_Some split: option.splits)

lemma valid_video_id_no_slash: "valid_video_id g \<Longrightarrow> 0x2F \<notin> set g"
  by (auto simp: valid_video_id_def list_all_iff is_id_char_def)

lemma valid_video_id_line: "valid_video_id g \<Longrightarrow> \<not> list_ex is_line_terminator g"
  by (auto simp: valid_video_id_def list_all_iff list_ex_iff is_id_char_def is_line_terminator_def)

lemma on_text_keyboard:
  "on_text c t = [ReplyKeyboard c' m kb] \<Longrightarrow> \<exists>g. yt_exec t = Some g \<and> kb = choice_keyboard g"
  by (auto simp: on_text_def split: option.splits)

lemma ex_conj_shift: "(\<exists>x. (\<exists>y z. P x y z) \<and> Q x) \<longleftrightarrow> (\<exists>x y z. P x y z \<and> Q x)"
  by blast

subsection \<open>The text handler\<close>

text \<open>
  C1: the text handler answers a message with the Video/Audio prompt whose two
  buttons carry the identifier \<open>g\<close> exactly when \<open>g\<close> is the identifier of the
  leftmost occurrence, in the message, of either URL shape followed by eleven
  identifier characters.
\<close>

theorem on_text_prompt_iff:
  "on_text c t = [ReplyKeyboard c choice_prompt_msg (choice_keyboard g)] \<longleftrightarrow>
     (\<exists>pre p r. t = pre @ p @ g @ r \<and> p \<in> {yt_watch_prefix, yt_short_prefix} \<and> valid_video_id g
        \<and> (\<forall>pre' p' g' r'. t = pre' @ p' @ g' @ r' \<and> p' \<in> {yt_watch_prefix, yt_short_prefix}
              \<and> valid_video_id g' \<longrightarrow> length pre \<le> length pre'))"
proof -
  have "on_text c t = [ReplyKeyboard c choice_prompt_msg (choice_keyboard g)] \<longleftrightarrow>
     (\<exists>pre s. t = pre @ s \<and> yt_match_at s = Some g
        \<and> (\<forall>pre' s' g'. t = pre' @ s' \<and> yt_match_at s' = Some g' \<longrightarrow> length pre \<le> length pre'))"
    by (simp add: on_text_prompt yt_exec_leftmost)
  also have "\<dots> \<longleftrightarrow> (\<exists>pre. (\<exists>s. t = pre @ s \<and> yt_match_at s = Some g)
        \<and> (\<forall>pre' s' g'. t = pre' @ s' \<and> yt_match_at s' = Some g' \<longrightarrow> length pre \<le> length pre'))"
    by blast
  also have "\<dots> \<longleftrightarrow> (\<exists>pre. (\<exists>p r. t = pre @ p @ g @ r \<and> p \<in> {yt_watch_prefix, yt_short_prefix} \<and> valid_video_id g)
        \<and> (\<forall>pre' p' g' r'. t = pre' @ p' @ g' @ r' \<and> p' \<in> {yt_watch_prefix, yt_short_prefix}
              \<and> valid_video_id g' \<longrightarrow> length pre \<le> length pre'))"
    by (simp only: occurrence_iff all_occurrences_iff)
  also have "\<dots> \<longleftrightarrow> (\<exists>pre p r. t = pre @ p @ g @ r \<and> p \<in> {yt_watch_prefix, yt_short_prefix} \<and> valid_video_id g
        \<and> (\<forall>pre' p' g' r'. t = pre' @ p' @ g' @ r' \<and> p' \<in> {yt_watch_prefix, yt_short_prefix}
              \<and> valid_video_id g' \<longrightarrow> length pre \<le> length pre'))"
    by (simp only: ex_conj_shift conj_assoc)
  finally show ?thesis .
qed

theorem on_text_prompt_iff_witness:
  "on_text 42 (js ''see https://youtu.be/dQw4w9WgXcQ'')
     = [ReplyKeyboard 42 choice_prompt_msg (choice_keyboard (js ''dQw4w9WgXcQ''))]
   \<and> (\<exists>pre p r. js ''see https://youtu.be/dQw4w9WgXcQ'' = pre @ p @ js ''dQw4w9WgXcQ'' @ r
        \<and> p \<in> {yt_watch_prefix, yt_short_prefix} \<and> valid_video_id (js ''dQw4w9WgXcQ'')
        \<and> (\<forall>pre' p' g' r'. js ''see https://youtu.be/dQw4w9WgXcQ'' = pre' @ p' @ g' @ r'
              \<and> p' \<in> {yt_watch_prefix, yt_short_prefix} \<and> valid_video_id g'
              \<longrightarrow> length pre \<le> length pre'))"
proof -
  have h: "on_text 42 (js ''see https://youtu.be/dQw4w9WgXcQ'')
     = [ReplyKeyboard 42 choice_prompt_msg (choice_keyboard (js ''dQw4w9WgXcQ''))]"
    by (simp add: on_text_def yt_match_at_def yt_alt_def id_group_def valid_video_id_def
        is_id_char_def yt_watch_prefix_def yt_short_prefix_def)
  show ?thesis by (rule conjI [OF h on_text_prompt_iff [THEN iffD1, OF h]])
qed

text \<open>
  C2: the text handler answers with the validation error, and nothing else,
  exactly when no occurrence of either URL shape followed by eleven identifier
  characters appears anywhere in the message.
\<close>

theorem on_text_invalid_iff:
  "on_text c t = [Reply c invalid_link_msg] \<longleftrightarrow>
     \<not> (\<exists>pre p g r. t = pre @ p @ g @ r \<and> p \<in> {yt_watch_prefix, yt_short_prefix} \<and> valid_video_id g)"
proof -
  have "on_text c t = [Reply c invalid_link_msg] \<longleftrightarrow> yt_exec t = None"
    by (auto simp: on_text_def split: option.splits)
  also have "\<dots> \<longleftrightarrow> \<not> (\<exists>i\<le>length t. \<exists>g. yt_match_at (drop i t) = Some g)"
    by (simp add: yt_exec_None_iff)
  also have "\<dots> \<longleftrightarrow> \<not> (\<exists>pre s. t = pre @ s \<and> (\<exists>g. yt_match_at s = Some g))"
    by (simp only: ex_drop_iff [of t "\<lambda>s. \<exists>g. yt_match_at s = Some g"])
  also have "\<dots> \<longleftrightarrow> \<not> (\<exists>pre g. \<exists>s. t = pre @ s \<and> yt_match_at s = Some g)"
    by blast
  also have "\<dots> \<longleftrightarrow> \<not> (\<exists>pre g. \<exists>p r. t = pre @ p @ g @ r \<and> p \<in> {yt_watch_prefix, yt_short_prefix}
                        \<and> valid_video_id g)"
    by (simp only: occurrence_iff)
  also have "\<dots> \<longleftrightarrow> \<not> (\<exists>pre p g r. t = pre @ p @ g @ r \<and> p \<in> {yt_watch_prefix, yt_short_prefix}
                        \<and> valid_video_id g)"
    by blast
  finally show ?thesis .
qed

theorem on_text_invalid_iff_witness:
  "on_text 42 (js ''https://vimeo.com/123'') = [Reply 42 invalid_link_msg]
   \<and> \<not> (\<exists>pre p g r. js ''https://vimeo.com/123'' = pre @ p @ g @ r
          \<and> p \<in> {yt_watch_prefix, yt_short_prefix} \<and> valid_video_id g)"
proof -
  have h: "on_text 42 (js ''https://vimeo.com/123'') = [Reply 42 invalid_link_msg]"
    by (simp add: on_text_def yt_match_at_def yt_alt_def yt_watch_prefix_def yt_short_prefix_def)
  show ?thesis by (rule conjI [OF h on_text_invalid_iff [THEN iffD1, OF h]])
qed

end
