(* ===== verification/Title_Sanitizer.thy ===== *)
theory Title_Sanitizer
  imports Prelude
begin

text \<open>
  The caption sanitiser (\<^verbatim>\<open>src/ytdl-t.m.js\<close>, line 44):
  \<^verbatim>\<open>info.videoDetails.title.replace(/[^\w\s.-]/gi, '_')\<close>. Without the
  \<^verbatim>\<open>u\<close> flag the expression works on UTF-16 code units, \<^verbatim>\<open>\w\<close> is the ASCII class
  \<^verbatim>\<open>[A-Za-z0-9_]\<close>, and \<^verbatim>\<open>\s\<close> is ECMAScript's WhiteSpace and LineTerminator.
  The \<^verbatim>\<open>i\<close> flag changes nothing here: without \<^verbatim>\<open>u\<close>, case folding never maps a
  non-ASCII code unit to an ASCII one, and the ASCII letters are in the class in
  both cases. The global replacement is therefore a map over code units.
\<close>

definition is_word_char :: "cu \<Rightarrow> bool" where
  "is_word_char c \<longleftrightarrow>
     (0x61 \<le> c \<and> c \<le> 0x7A) \<or> (0x41 \<le> c \<and> c \<le> 0x5A) \<or> (0x30 \<le> c \<and> c \<le> 0x39) \<or> c = 0x5F"

definition is_js_space :: "cu \<Rightarrow> bool" where
  "is_js_space c \<longleftrightarrow>
     c = 0x09 \<or> c = 0x0A \<or> c = 0x0B \<or> c = 0x0C \<or> c = 0x0D \<or> c = 0x20 \<or> c = 0xA0
     \<or> c = 0x1680 \<or> (0x2000 \<le> c \<and> c \<le> 0x200A) \<or> c = 0x2028 \<or> c = 0x2029
     \<or> c = 0x202F \<or> c = 0x205F \<or> c = 0x3000 \<or> c = 0xFEFF"

text \<open>The complement of the class \<^verbatim>\<open>[^\w\s.-]\<close>: the code units the replacement keeps.\<close>

definition title_keep :: "cu \<Rightarrow> bool" where
  "title_keep c \<longleftrightarrow> is_word_char c \<or> is_js_space c \<or> c = 0x2E \<or> c = 0x2D"

definition sanitize_title :: "jstr \<Rightarrow> jstr" where
  "sanitize_title t = map (\<lambda>c. if title_keep c then c else 0x5F) t"

lemma title_keep_underscore [simp]: "title_keep 0x5F"
  by (simp add: title_keep_def is_word_char_def)

lemma sanitize_title_keeps [simp]: "list_all title_keep (sanitize_title t)"
  by (induction t) (simp_all add: sanitize_title_def)

lemma sanitize_title_clean: "list_all title_keep t \<Longrightarrow> sanitize_title t = t"
  by (induction t) (simp_all add: sanitize_title_def)

lemma sanitize_title_append [simp]:
  "sanitize_title (xs @ ys) = sanitize_title xs @ sanitize_title ys"
  by (simp add: sanitize_title_def)

lemma surrogate_not_kept:
  "0xD800 \<le> c \<Longrightarrow> c \<le> (0xDFFF :: cu) \<Longrightarrow> \<not> title_keep c"
  by (auto simp: title_keep_def is_word_char_def is_js_space_def word_le_nat_alt)

text \<open>
  C14: sanitising is idempotent: a sanitised title is left unchanged by a second
  pass.
\<close>

theorem sanitize_title_idempotent: "sanitize_title (sanitize_title t) = sanitize_title t"
  by (rule sanitize_title_clean) simp

text \<open>
  C15: the titles the sanitiser leaves unchanged are exactly those made only of
  word characters, whitespace, dots and hyphens.
\<close>

theorem sanitize_title_fixed_iff: "sanitize_title t = t \<longleftrightarrow> list_all title_keep t"
  by (metis sanitize_title_clean sanitize_title_keeps)

theorem sanitize_title_fixed_iff_witness:
  "sanitize_title (js ''My Song - Live.2024'') = js ''My Song - Live.2024''
   \<and> list_all title_keep (js ''My Song - Live.2024'')"
proof -
  have h: "sanitize_title (js ''My Song - Live.2024'') = js ''My Song - Live.2024''"
    by (simp add: sanitize_title_def title_keep_def is_word_char_def is_js_space_def)
  show ?thesis by (rule conjI [OF h sanitize_title_fixed_iff [THEN iffD1, OF h]])
qed

text \<open>
  C16: the replacement works on UTF-16 code units, not on characters: a character
  outside the Basic Multilingual Plane (an emoji, stored as a surrogate pair)
  becomes two underscores.
\<close>

theorem sanitize_title_surrogate_pair:
  assumes "0xD800 \<le> hi" "hi \<le> (0xDBFF :: cu)" "0xDC00 \<le> lo" "lo \<le> (0xDFFF :: cu)"
  shows "sanitize_title (xs @ [hi, lo] @ ys) = sanitize_title xs @ [0x5F, 0x5F] @ sanitize_title ys"
proof -
  have "\<not> title_keep hi" using assms(1,2) by (intro surrogate_not_kept) (simp_all add: word_le_nat_alt)
  moreover have "\<not> title_keep lo" using assms(3,4) by (intro surrogate_not_kept) (simp_all add: word_le_nat_alt)
  ultimately show ?thesis by (simp add: sanitize_title_def)
qed

theorem sanitize_title_surrogate_pair_witness:
  "sanitize_title (js ''Relax '' @ [0xD83C, 0xDFB5] @ js '' Mix'') = js ''Relax __ Mix''"
proof -
  have "sanitize_title (js ''Relax '' @ [0xD83C, 0xDFB5] @ js '' Mix'')
        = sanitize_title (js ''Relax '') @ [0x5F, 0x5F] @ sanitize_title (js '' Mix'')"
    by (rule sanitize_title_surrogate_pair) simp_all
  then show ?thesis
    by (simp add: sanitize_title_def title_keep_def is_word_char_def is_js_space_def)
qed

end
