(* ===== verification/Temp_Path.thy ===== *)
theory Temp_Path
  imports Callback_Token
begin

text \<open>
  The temporary file path (\<^verbatim>\<open>src/ytdl-t.m.js\<close>, lines 46--50): the name
  \<^verbatim>\<open>audio-${videoId}.mp3\<close> or \<^verbatim>\<open>video-${videoId}.mp4\<close>, joined to the script's
  directory with Node's \<^verbatim>\<open>path.join\<close>. \<^verbatim>\<open>path.join\<close> belongs to Node's
  \<^verbatim>\<open>path\<close> module, not to the repository; it is modelled from Node's POSIX
  implementation: the non-empty arguments are joined with \<^verbatim>\<open>/\<close> and the result
  normalised (\<^verbatim>\<open>normalizeString\<close>: empty and \<^verbatim>\<open>.\<close> segments dropped, \<^verbatim>\<open>..\<close>
  removes the previous segment, or is dropped at the root of an absolute path;
  the leading and a trailing \<^verbatim>\<open>/\<close> kept). An absolute directory is written
  \<open>abs_path segs\<close>, the concatenation of \<^verbatim>\<open>/\<close> and each segment.
  The lemmas show that a slash-free identifier names a direct child of the
  directory (\<open>temp_path_in_dir\<close>), and that an identifier made of a prefix, one
  \<^verbatim>\<open>/..\<close> more than the directory has segments and any absolute path names
  that path instead (\<open>temp_path_escape\<close>).
\<close>

definition temp_file_name :: "media \<Rightarrow> jstr \<Rightarrow> jstr" where
  "temp_file_name k vid =
     (case k of Audio \<Rightarrow> js ''audio-'' @ vid @ js ''.mp3'' | Video \<Rightarrow> js ''video-'' @ vid @ js ''.mp4'')"

fun split_on :: "cu \<Rightarrow> jstr \<Rightarrow> jstr list" where
  "split_on d [] = [[]]"
| "split_on d (c # cs) =
     (if c = d then [] # split_on d cs else (let r = split_on d cs in (c # hd r) # tl r))"

fun norm_segs :: "bool \<Rightarrow> jstr list \<Rightarrow> jstr list \<Rightarrow> jstr list" where
  "norm_segs above_root st [] = st"
| "norm_segs above_root st (x # xs) =
     (if x = [] \<or> x = js ''.'' then norm_segs above_root st xs
      else if x = js ''..'' then
        (if st \<noteq> [] \<and> hd st \<noteq> js ''..'' then norm_segs above_root (tl st) xs
         else if above_root then norm_segs above_root (js ''..'' # st) xs
         else norm_segs above_root st xs)
      else norm_segs above_root (x # st) xs)"

definition posix_normalize :: "jstr \<Rightarrow> jstr" where
  "posix_normalize p =
     (if p = [] then js ''.'' else
      let absolute = (hd p = 0x2F); trailing = (last p = 0x2F);
          body = join_with (js ''/'') (rev (norm_segs (\<not> absolute) [] (split_on 0x2F p)))
      in if body = [] then (if absolute then js ''/'' else if trailing then js ''./'' else js ''.'')
         else (if absolute then js ''/'' else []) @ body @ (if trailing then js ''/'' else []))"

definition posix_join :: "jstr \<Rightarrow> jstr \<Rightarrow> jstr" where
  "posix_join a b =
     (case filter (\<lambda>x. x \<noteq> []) [a, b] of
        [] \<Rightarrow> js ''.''
      | parts \<Rightarrow> posix_normalize (join_with (js ''/'') parts))"

definition temp_path :: "jstr \<Rightarrow> media \<Rightarrow> jstr \<Rightarrow> jstr" where
  "temp_path dir k vid = posix_join dir (temp_file_name k vid)"

definition plain_seg :: "jstr \<Rightarrow> bool" where
  "plain_seg s \<longleftrightarrow> s \<noteq> [] \<and> 0x2F \<notin> set s \<and> s \<noteq> js ''.'' \<and> s \<noteq> js ''..''"

definition abs_path :: "jstr list \<Rightarrow> jstr" where
  "abs_path segs = concat (map (\<lambda>s. 0x2F # s) segs)"

subsection \<open>Splitting and normalising plain paths\<close>

lemma split_on_no_sep: "d \<notin> set s \<Longrightarrow> split_on d s = [s]"
  by (induction s) auto

lemma split_on_append_sep: "d \<notin> set s \<Longrightarrow> split_on d (s @ d # r) = s # split_on d r"
  by (induction s) auto

lemma split_on_abs_path_tail:
  "d \<notin> set s \<Longrightarrow> \<forall>t\<in>set ss. d \<notin> set t \<Longrightarrow> split_on d (s @ concat (map (\<lambda>t. d # t) ss)) = s # ss"
proof (induction ss arbitrary: s)
  case Nil
  then show ?case by (simp add: split_on_no_sep)
next
  case (Cons t ts)
  then have "split_on d (t @ concat (map (\<lambda>t. d # t) ts)) = t # ts" by simp
  with Cons.prems show ?case by (simp add: split_on_append_sep)
qed

lemma split_on_abs_path:
  "segs \<noteq> [] \<Longrightarrow> \<forall>s\<in>set segs. plain_seg s \<Longrightarrow> split_on 0x2F (abs_path segs) = [] # segs"
  by (cases segs) (auto simp: abs_path_def plain_seg_def split_on_abs_path_tail)

lemma norm_segs_plain: "\<forall>s\<in>set xs. plain_seg s \<Longrightarrow> norm_segs a st xs = rev xs @ st"
  by (induction xs arbitrary: st) (auto simp: plain_seg_def)

lemma abs_path_join_with: "segs \<noteq> [] \<Longrightarrow> abs_path segs = 0x2F # join_with [0x2F] segs"
proof (induction segs)
  case Nil
  then show ?case by simp
next
  case (Cons s ss)
  then show ?case by (cases ss) (simp_all add: abs_path_def)
qed

lemma abs_path_last:
  "segs \<noteq> [] \<Longrightarrow> \<forall>s\<in>set segs. plain_seg s \<Longrightarrow> last (abs_path segs) \<noteq> 0x2F"
proof (induction segs)
  case Nil
  then show ?case by simp
next
  case (Cons s ss)
  then show ?case
    by (cases ss) (auto simp: abs_path_def plain_seg_def last_not_in_set)
qed

lemma posix_normalize_abs_path:
  assumes "segs \<noteq> []" "\<forall>s\<in>set segs. plain_seg s"
  shows "posix_normalize (abs_path segs) = abs_path segs"
proof -
  from assms have split: "split_on 0x2F (abs_path segs) = [] # segs"
    by (rule split_on_abs_path)
  from assms have norm: "norm_segs False [] segs = rev segs"
    by (simp add: norm_segs_plain)
  from assms have ne: "join_with [0x2F] segs \<noteq> []"
    by (cases segs) (auto simp: plain_seg_def join_with_Cons)
  from assms(1) have hd: "hd (abs_path segs) = 0x2F" and nn: "abs_path segs \<noteq> []"
    by (simp_all add: abs_path_join_with)
  from assms have "last (abs_path segs) \<noteq> 0x2F" by (rule abs_path_last)
  with split norm ne hd nn assms(1) show ?thesis
    by (simp add: posix_normalize_def abs_path_join_with Let_def)
qed

lemma plain_seg_temp_file_name: "0x2F \<notin> set vid \<Longrightarrow> plain_seg (temp_file_name k vid)"
  by (cases k) (auto simp: plain_seg_def temp_file_name_def)

lemma posix_join_abs_path:
  assumes "segs \<noteq> []" "\<forall>s\<in>set segs. plain_seg s" "plain_seg name"
  shows "posix_join (abs_path segs) name = abs_path (segs @ [name])"
proof -
  have "abs_path segs \<noteq> []" using assms(1) by (simp add: abs_path_join_with)
  moreover have "name \<noteq> []" using assms(3) by (simp add: plain_seg_def)
  moreover have "abs_path segs @ 0x2F # name = abs_path (segs @ [name])"
    by (simp add: abs_path_def)
  moreover have "posix_normalize (abs_path (segs @ [name])) = abs_path (segs @ [name])"
    using assms by (intro posix_normalize_abs_path) auto
  ultimately show ?thesis by (simp add: posix_join_def)
qed

subsection \<open>Segments that climb out of the directory\<close>

lemma abs_path_append: "abs_path (xs @ ys) = abs_path xs @ abs_path ys"
  by (simp add: abs_path_def)

lemma abs_path_replicate: "abs_path (replicate m s) = concat (replicate m (0x2F # s))"
  by (induction m) (simp_all add: abs_path_def)

lemma norm_segs_append: "norm_segs a st (xs @ ys) = norm_segs a (norm_segs a st xs) ys"
  by (induction a st xs rule: norm_segs.induct) auto

lemma norm_segs_dots:
  "\<forall>s\<in>set st. s \<noteq> js ''..'' \<Longrightarrow> length st \<le> m \<Longrightarrow> norm_segs False st (replicate m (js ''..'')) = []"
proof (induction m arbitrary: st)
  case 0
  then show ?case by simp
next
  case (Suc m)
  then show ?case
  proof (cases st)
    case Nil
    with Suc.IH show ?thesis by simp
  next
    case (Cons s st')
    with Suc.prems have "norm_segs False st' (replicate m (js ''..'')) = []" by (intro Suc.IH) auto
    with Cons Suc.prems show ?thesis by simp
  qed
qed

lemma posix_normalize_abs:
  assumes "xs \<noteq> []" "\<forall>s\<in>set xs. 0x2F \<notin> set s" "plain_seg (last xs)"
    and "norm_segs False [] xs = rev ys" "ys \<noteq> []" "\<forall>s\<in>set ys. plain_seg s"
  shows "posix_normalize (abs_path xs) = abs_path ys"
proof -
  have split: "split_on 0x2F (abs_path xs) = [] # xs"
    using split_on_abs_path_tail [where s = "[]" and ss = xs] assms(2) by (simp add: abs_path_def)
  from assms(5,6) have ne: "join_with [0x2F] ys \<noteq> []"
    by (cases ys) (auto simp: plain_seg_def join_with_Cons)
  from assms(1) have hd: "hd (abs_path xs) = 0x2F" and nn: "abs_path xs \<noteq> []"
    by (simp_all add: abs_path_join_with)
  from assms(1,3) have "last (abs_path xs) \<noteq> 0x2F"
    by (induction xs rule: rev_nonempty_induct) (auto simp: abs_path_def plain_seg_def last_not_in_set)
  with split ne hd nn assms(4,5) show ?thesis
    by (simp add: posix_normalize_def abs_path_join_with Let_def)
qed

lemma temp_file_name_tag:
  "temp_file_name k v = media_tag k @ js ''-'' @ v @ (case k of Audio \<Rightarrow> js ''.mp3'' | Video \<Rightarrow> js ''.mp4'')"
  by (cases k) (simp_all add: temp_file_name_def media_tag_def)

lemma temp_path_escape:
  assumes "segs \<noteq> []" "\<forall>s\<in>set segs. plain_seg s" "\<forall>s\<in>set ts. plain_seg s" "plain_seg f"
    and "0x2F \<notin> set x"
  shows "temp_path (abs_path segs) k (x @ concat (replicate (Suc (length segs)) (js ''/..'')) @ abs_path (ts @ [f]))
         = abs_path (ts @ [f @ (case k of Audio \<Rightarrow> js ''.mp3'' | Video \<Rightarrow> js ''.mp4'')])"
proof -
  define e where "e = (case k of Audio \<Rightarrow> js ''.mp3'' | Video \<Rightarrow> js ''.mp4'')"
  define y where "y = media_tag k @ js ''-'' @ x"
  define xs where "xs = segs @ [y] @ replicate (Suc (length segs)) (js ''..'') @ ts @ [f @ e]"
  have pe: "plain_seg (f @ e)" using assms(4) by (cases k) (auto simp: e_def plain_seg_def)
  have py: "plain_seg y" using assms(5) by (cases k) (auto simp: y_def media_tag_def plain_seg_def)
  have str: "abs_path segs @ 0x2F # temp_file_name k (x @ concat (replicate (Suc (length segs)) (js ''/..'')) @ abs_path (ts @ [f]))
       = abs_path xs"
    by (simp add: xs_def y_def e_def temp_file_name_tag abs_path_replicate abs_path_append) (simp add: abs_path_def)
  have n1: "norm_segs False [] segs = rev segs" using assms(2) by (simp add: norm_segs_plain)
  have n2: "norm_segs False (rev segs) [y] = y # rev segs" using py by (simp add: plain_seg_def)
  have n3: "norm_segs False (y # rev segs) (replicate (Suc (length segs)) (js ''..'')) = []"
    using assms(2) py by (intro norm_segs_dots) (auto simp: plain_seg_def)
  have n4: "norm_segs False [] (ts @ [f @ e]) = rev (ts @ [f @ e])"
    using assms(3) pe by (simp add: norm_segs_plain)
  have norm: "norm_segs False [] xs = rev (ts @ [f @ e])"
    using n4 by (simp only: xs_def norm_segs_append n1 n2 n3)
  have sl: "\<forall>s\<in>set xs. 0x2F \<notin> set s"
    using assms(2,3) pe py unfolding xs_def plain_seg_def by (simp add: set_replicate_conv_if ball_Un)
  have "posix_normalize (abs_path xs) = abs_path (ts @ [f @ e])"
  proof (rule posix_normalize_abs [OF _ sl _ norm])
    show "xs \<noteq> []" "plain_seg (last xs)" using pe by (simp_all add: xs_def)
    show "ts @ [f @ e] \<noteq> []" by simp
    show "\<forall>s\<in>set (ts @ [f @ e]). plain_seg s" using assms(3) pe by simp
  qed
  moreover have "abs_path segs \<noteq> []" using assms(1) by (simp add: abs_path_join_with)
  ultimately show ?thesis
    by (simp add: temp_path_def posix_join_def temp_file_name_tag str [symmetric] e_def)
qed

subsection \<open>Where the temporary file lies\<close>

text \<open>
  C17: for an identifier without a slash (every identifier the link recogniser
  extracts is one), the temporary file is a direct child of the script's
  directory, named \<^verbatim>\<open>audio-<id>.mp3\<close> or \<^verbatim>\<open>video-<id>.mp4\<close>.
\<close>

theorem temp_path_in_dir:
  assumes "segs \<noteq> []" "\<forall>s\<in>set segs. plain_seg s" "0x2F \<notin> set vid"
  shows "temp_path (abs_path segs) k vid = abs_path (segs @ [temp_file_name k vid])"
  using assms by (simp add: temp_path_def posix_join_abs_path plain_seg_temp_file_name)

theorem temp_path_in_dir_witness:
  "[js ''srv'', js ''bot''] \<noteq> [] \<and> list_all plain_seg [js ''srv'', js ''bot'']
   \<and> 0x2F \<notin> set (js ''dQw4w9WgXcQ'')
   \<and> temp_path (abs_path [js ''srv'', js ''bot'']) Audio (js ''dQw4w9WgXcQ'')
       = js ''/srv/bot/audio-dQw4w9WgXcQ.mp3''"
proof -
  have h1: "[js ''srv'', js ''bot''] \<noteq> []" by simp
  have h2: "\<forall>s\<in>set [js ''srv'', js ''bot'']. plain_seg s" by (simp add: plain_seg_def)
  have h3: "0x2F \<notin> set (js ''dQw4w9WgXcQ'')" by simp
  have "temp_path (abs_path [js ''srv'', js ''bot'']) Audio (js ''dQw4w9WgXcQ'')
        = abs_path ([js ''srv'', js ''bot''] @ [temp_file_name Audio (js ''dQw4w9WgXcQ'')])"
    by (rule temp_path_in_dir [OF h1 h2 h3])
  then show ?thesis using h1 h2 h3 by (simp add: abs_path_def temp_file_name_def plain_seg_def)
qed

end
