(* ===== verification/Bot_Flow.thy ===== *)
theory Bot_Flow
  imports Link_Parser Title_Sanitizer Temp_Path
begin

text \<open>
  The bot as an event-driven machine (\<^verbatim>\<open>src/ytdl-t.m.js\<close>, lines 11--94). Its
  state is the part of the world the handlers change: the directory entries of
  the file system (path to inode) and the inode contents, the handler
  invocations in flight, the requests sent to the chat service and the calls
  made to ytdl-core. An \<open>event\<close> is whatever the Node.js event loop can run
  next: an update from Telegram, or the settling of one asynchronous operation
  of one invocation (the awaited \<^verbatim>\<open>answerCbQuery\<close> and \<^verbatim>\<open>getInfo\<close>, the write
  stream's open, data, end and error of the media stream, the upload of the
  file). \<open>bot_step\<close> runs the handler code that the event resumes, up to its
  next suspension point, and is \<open>None\<close> where the event cannot happen in the
  state. The libraries' results are inputs of the events, not computed.
  The lemmas give the end-to-end run of one callback, the well-formedness
  invariant of reachable states, the file-system footprint of any run, the
  effect of each error path, and two hazards that hold in any state: two
  invocations sharing a path replace each other's file, and an early stream
  error leaves an empty file behind.
\<close>

subsection \<open>State\<close>

text \<open>Where an action-handler invocation is suspended.\<close>

datatype phase =
    AwaitAck      \<comment> \<open>\<^verbatim>\<open>await ctx.answerCbQuery()\<close>, line 36\<close>
  | AwaitInfo     \<comment> \<open>\<^verbatim>\<open>await ytdl.getInfo(url)\<close>, line 40\<close>
  | Piping        \<comment> \<open>handler returned; \<^verbatim>\<open>stream.pipe(file)\<close> running, lines 63--83\<close>
  | Sending       \<comment> \<open>\<^verbatim>\<open>'finish'\<close> fired; \<^verbatim>\<open>await ctx.replyWithAudio/Video\<close>, lines 72--76\<close>
  | Finished

text \<open>\<^verbatim>\<open>fs.createWriteStream(filePath)\<close>: not created, open pending, or open on an inode.\<close>

datatype wstream = WsNone | WsOpening | WsOpen nat

record invocation =
  iv_chat :: chat_id
  iv_kind :: media
  iv_vid :: jstr
  iv_title :: jstr
  iv_path :: jstr
  iv_phase :: phase
  iv_ws :: wstream

text \<open>The options object of \<^verbatim>\<open>ytdl(url, options)\<close>: \<^verbatim>\<open>filter\<close> and \<^verbatim>\<open>quality\<close>.\<close>

datatype ytdl_options = YtdlOpts (opt_filter: "jstr option") (opt_quality: jstr)

datatype ext_call = GetInfo jstr | Ytdl jstr ytdl_options

record bot =
  bot_dir :: jstr
  files :: "jstr \<rightharpoonup> nat"
  inode_data :: "nat \<Rightarrow> byte list"
  next_inode :: nat
  invs :: "invocation list"
  outbox :: "outmsg list"
  ext_calls :: "ext_call list"

datatype update = StartCmd chat_id | TextMsg chat_id jstr | CallbackQuery chat_id jstr

datatype info_result = InfoError | InfoTitle jstr

datatype event =
    Update update
  | AckDone nat bool
  | InfoDone nat info_result bool
  | FileOpened nat
  | Chunk nat "byte list"
  | StreamEnd nat
  | StreamError nat
  | SendDone nat bool

definition init_bot :: "jstr \<Rightarrow> (jstr \<rightharpoonup> nat) \<Rightarrow> nat \<Rightarrow> bot" where
  "init_bot dir fs0 n0 =
     \<lparr>bot_dir = dir, files = fs0, inode_data = (\<lambda>_. []), next_inode = n0, invs = [],
      outbox = [], ext_calls = []\<rparr>"

subsection \<open>Operations\<close>

definition watch_url :: "jstr \<Rightarrow> jstr" where
  "watch_url vid = js ''https://www.youtube.com/watch?v='' @ vid"

definition ytdl_opts :: "media \<Rightarrow> ytdl_options" where
  "ytdl_opts k =
     (case k of Audio \<Rightarrow> YtdlOpts (Some (js ''audioonly'')) (js ''highestaudio'')
              | Video \<Rightarrow> YtdlOpts None (js ''18''))"

definition send :: "bot \<Rightarrow> outmsg \<Rightarrow> bot" where
  "send s m = s\<lparr>outbox := outbox s @ [m]\<rparr>"

definition set_inv :: "bot \<Rightarrow> nat \<Rightarrow> invocation \<Rightarrow> bot" where
  "set_inv s i iv = s\<lparr>invs := (invs s)[i := iv]\<rparr>"

text \<open>\<^verbatim>\<open>if (fs.existsSync(filePath)) fs.unlinkSync(filePath)\<close>.\<close>

definition unlink_if_exists :: "bot \<Rightarrow> jstr \<Rightarrow> bot" where
  "unlink_if_exists s p = s\<lparr>files := (files s)(p := None)\<rparr>"

text \<open>\<^verbatim>\<open>bot.start\<close> and \<^verbatim>\<open>bot.on('text')\<close> reply at once; \<^verbatim>\<open>bot.action\<close> starts an
  invocation: it computes the URL and path and suspends on \<^verbatim>\<open>answerCbQuery\<close>.
  A callback whose data the pattern rejects has no handler.\<close>

definition start_action :: "bot \<Rightarrow> chat_id \<Rightarrow> media \<Rightarrow> jstr \<Rightarrow> bot" where
  "start_action s c k vid =
     send (s\<lparr>invs := invs s @
        [\<lparr>iv_chat = c, iv_kind = k, iv_vid = vid, iv_title = [],
          iv_path = temp_path (bot_dir s) k vid, iv_phase = AwaitAck, iv_ws = WsNone\<rparr>]\<rparr>)
       (AnswerCbQuery c)"

fun handle_update :: "bot \<Rightarrow> update \<Rightarrow> bot" where
  "handle_update s (StartCmd c) = send s (Reply c greeting_msg)"
| "handle_update s (TextMsg c t) = s\<lparr>outbox := outbox s @ on_text c t\<rparr>"
| "handle_update s (CallbackQuery c d) =
     (case action_match d of None \<Rightarrow> s | Some (k, vid) \<Rightarrow> start_action s c k vid)"

text \<open>\<^verbatim>\<open>answerCbQuery\<close> settles: on rejection the handler's promise rejects and
  \<^verbatim>\<open>bot.catch\<close> replies (line 93); otherwise the handler calls \<^verbatim>\<open>getInfo\<close>.\<close>

definition ack_done :: "bot \<Rightarrow> nat \<Rightarrow> invocation \<Rightarrow> bool \<Rightarrow> bot" where
  "ack_done s i iv ok =
     (if ok then set_inv (s\<lparr>ext_calls := ext_calls s @ [GetInfo (watch_url (iv_vid iv))]\<rparr>) i
                   (iv\<lparr>iv_phase := AwaitInfo\<rparr>)
      else set_inv (send s (Reply (iv_chat iv) bot_error_msg)) i (iv\<lparr>iv_phase := Finished\<rparr>))"

text \<open>\<^verbatim>\<open>getInfo\<close> settles (lines 39--87): on failure the handler replies and
  returns; otherwise it sanitises the title, removes a stale file, replies,
  creates the media stream and the write stream (whose open is asynchronous)
  and returns. \<open>setup_ok\<close> is false when \<^verbatim>\<open>ytdl(...)\<close> throws synchronously, the
  \<^verbatim>\<open>catch\<close> of lines 84--87.\<close>

definition info_done :: "bot \<Rightarrow> nat \<Rightarrow> invocation \<Rightarrow> info_result \<Rightarrow> bool \<Rightarrow> bot" where
  "info_done s i iv r setup_ok =
     (case r of
        InfoError \<Rightarrow> set_inv (send s (Reply (iv_chat iv) info_failed_msg)) i (iv\<lparr>iv_phase := Finished\<rparr>)
      | InfoTitle t \<Rightarrow>
          (let iv' = iv\<lparr>iv_title := sanitize_title t\<rparr>;
               s1 = send (unlink_if_exists s (iv_path iv)) (Reply (iv_chat iv) downloading_msg)
           in if setup_ok then
                set_inv (s1\<lparr>ext_calls := ext_calls s1 @ [Ytdl (watch_url (iv_vid iv)) (ytdl_opts (iv_kind iv))]\<rparr>)
                  i (iv'\<lparr>iv_phase := Piping, iv_ws := WsOpening\<rparr>)
              else set_inv (unlink_if_exists (send s1 (Reply (iv_chat iv) setup_error_msg)) (iv_path iv))
                  i (iv'\<lparr>iv_phase := Finished\<rparr>)))"

text \<open>The write stream's open completes: flags \<^verbatim>\<open>'w'\<close> truncate an existing
  file at the path, or create a new one.\<close>

definition file_opened :: "bot \<Rightarrow> nat \<Rightarrow> invocation \<Rightarrow> bot" where
  "file_opened s i iv =
     (case files s (iv_path iv) of
        Some n \<Rightarrow> set_inv (s\<lparr>inode_data := (inode_data s)(n := [])\<rparr>) i (iv\<lparr>iv_ws := WsOpen n\<rparr>)
      | None \<Rightarrow>
          (let n = next_inode s in
           set_inv (s\<lparr>files := (files s)(iv_path iv \<mapsto> n), inode_data := (inode_data s)(n := []),
                      next_inode := Suc n\<rparr>) i (iv\<lparr>iv_ws := WsOpen n\<rparr>)))"

text \<open>\<^verbatim>\<open>stream.pipe(file)\<close> writes a chunk to the open inode.\<close>

definition write_chunk :: "bot \<Rightarrow> nat \<Rightarrow> byte list \<Rightarrow> bot" where
  "write_chunk s n bs = s\<lparr>inode_data := (inode_data s)(n := inode_data s n @ bs)\<rparr>"

text \<open>The media stream's \<^verbatim>\<open>'error'\<close> listener (lines 80--83).\<close>

definition stream_error :: "bot \<Rightarrow> nat \<Rightarrow> invocation \<Rightarrow> bot" where
  "stream_error s i iv =
     set_inv (unlink_if_exists (send s (Reply (iv_chat iv) download_error_msg)) (iv_path iv))
       i (iv\<lparr>iv_phase := Finished\<rparr>)"

text \<open>The upload of \<^verbatim>\<open>replyWithAudio/Video({source: filePath})\<close> settles: the
  file is read at the path; when the upload succeeds the handler unlinks the
  file (line 77). A failed upload (or a missing file) rejects the promise of the
  \<^verbatim>\<open>'finish'\<close> listener, which nothing catches: the file stays.\<close>

definition attachment :: "media \<Rightarrow> chat_id \<Rightarrow> byte list \<Rightarrow> jstr \<Rightarrow> outmsg" where
  "attachment k c bs title = (case k of Audio \<Rightarrow> ReplyAudio c bs title | Video \<Rightarrow> ReplyVideo c bs title)"

definition send_done :: "bot \<Rightarrow> nat \<Rightarrow> invocation \<Rightarrow> bool \<Rightarrow> bot" where
  "send_done s i iv ok =
     (case files s (iv_path iv) of
        Some n \<Rightarrow>
          if ok then
            set_inv (unlink_if_exists (send s (attachment (iv_kind iv) (iv_chat iv) (inode_data s n) (iv_title iv)))
                       (iv_path iv)) i (iv\<lparr>iv_phase := Finished\<rparr>)
          else set_inv s i (iv\<lparr>iv_phase := Finished\<rparr>)
      | None \<Rightarrow> set_inv s i (iv\<lparr>iv_phase := Finished\<rparr>))"

definition get_inv :: "bot \<Rightarrow> nat \<Rightarrow> invocation option" where
  "get_inv s i = (if i < length (invs s) then Some (invs s ! i) else None)"

fun bot_step :: "bot \<Rightarrow> event \<Rightarrow> bot option" where
  "bot_step s (Update u) = Some (handle_update s u)"
| "bot_step s (AckDone i ok) =
     (case get_inv s i of
        Some iv \<Rightarrow> if iv_phase iv = AwaitAck then Some (ack_done s i iv ok) else None
      | None \<Rightarrow> None)"
| "bot_step s (InfoDone i r setup_ok) =
     (case get_inv s i of
        Some iv \<Rightarrow> if iv_phase iv = AwaitInfo then Some (info_done s i iv r setup_ok) else None
      | None \<Rightarrow> None)"
| "bot_step s (FileOpened i) =
     (case get_inv s i of
        Some iv \<Rightarrow> if iv_ws iv = WsOpening then Some (file_opened s i iv) else None
      | None \<Rightarrow> None)"
| "bot_step s (Chunk i bs) =
     (case get_inv s i of
        Some iv \<Rightarrow>
          (case iv_ws iv of
             WsOpen n \<Rightarrow> if iv_phase iv = Piping then Some (write_chunk s n bs) else None
           | _ \<Rightarrow> None)
      | None \<Rightarrow> None)"
| "bot_step s (StreamEnd i) =
     (case get_inv s i of
        Some iv \<Rightarrow>
          (case iv_ws iv of
             WsOpen n \<Rightarrow> if iv_phase iv = Piping then Some (set_inv s i (iv\<lparr>iv_phase := Sending\<rparr>)) else None
           | _ \<Rightarrow> None)
      | None \<Rightarrow> None)"
| "bot_step s (StreamError i) =
     (case get_inv s i of
        Some iv \<Rightarrow> if iv_phase iv = Piping then Some (stream_error s i iv) else None
      | None \<Rightarrow> None)"
| "bot_step s (SendDone i ok) =
     (case get_inv s i of
        Some iv \<Rightarrow> if iv_phase iv = Sending then Some (send_done s i iv ok) else None
      | None \<Rightarrow> None)"

fun run :: "bot \<Rightarrow> event list \<Rightarrow> bot option" where
  "run s [] = Some s"
| "run s (e # es) = (case bot_step s e of None \<Rightarrow> None | Some s' \<Rightarrow> run s' es)"

subsection \<open>Well-formedness and reachable states\<close>

text \<open>An invocation's write stream agrees with where it is suspended, and it
  refers only to allocated inodes.\<close>

definition ws_fits :: "phase \<Rightarrow> wstream \<Rightarrow> bool" where
  "ws_fits ph ws =
     (case ph of AwaitAck \<Rightarrow> ws = WsNone | AwaitInfo \<Rightarrow> ws = WsNone | Piping \<Rightarrow> ws \<noteq> WsNone
      | Sending \<Rightarrow> (case ws of WsOpen _ \<Rightarrow> True | _ \<Rightarrow> False) | Finished \<Rightarrow> True)"

definition ws_below :: "nat \<Rightarrow> wstream \<Rightarrow> bool" where
  "ws_below n ws = (case ws of WsOpen m \<Rightarrow> m < n | _ \<Rightarrow> True)"

definition inv_wf :: "jstr \<Rightarrow> nat \<Rightarrow> invocation \<Rightarrow> bool" where
  "inv_wf dir n iv \<longleftrightarrow>
     iv_path iv = temp_path dir (iv_kind iv) (iv_vid iv) \<and> token_payload (iv_vid iv)
     \<and> ws_fits (iv_phase iv) (iv_ws iv) \<and> ws_below n (iv_ws iv)"

definition bot_inv :: "bot \<Rightarrow> bool" where
  "bot_inv s \<longleftrightarrow>
     list_all (inv_wf (bot_dir s) (next_inode s)) (invs s) \<and> (\<forall>m\<in>ran (files s). m < next_inode s)"

text \<open>The states the bot can reach from a start with any directory contents, and
  the invocation an event belongs to.\<close>

inductive reachable :: "bot \<Rightarrow> bool" where
  start: "\<forall>m\<in>ran fs0. m < n0 \<Longrightarrow> reachable (init_bot dir fs0 n0)"
| step: "reachable s \<Longrightarrow> bot_step s e = Some s' \<Longrightarrow> reachable s'"

fun event_inv :: "event \<Rightarrow> nat option" where
  "event_inv (Update u) = None"
| "event_inv (AckDone i ok) = Some i"
| "event_inv (InfoDone i r ok) = Some i"
| "event_inv (FileOpened i) = Some i"
| "event_inv (Chunk i bs) = Some i"
| "event_inv (StreamEnd i) = Some i"
| "event_inv (StreamError i) = Some i"
| "event_inv (SendDone i ok) = Some i"

text \<open>What identifies an invocation's temporary file: type, identifier and path.\<close>

definition inv_key :: "invocation \<Rightarrow> media \<times> jstr \<times> jstr" where
  "inv_key iv = (iv_kind iv, iv_vid iv, iv_path iv)"

subsection \<open>Runs of one invocation\<close>

lemma run_append: "run s (xs @ ys) = (case run s xs of None \<Rightarrow> None | Some s' \<Rightarrow> run s' ys)"
  by (induction s xs rule: run.induct) (auto split: option.splits)

lemma write_chunk_append: "write_chunk (write_chunk s n a) n b = write_chunk s n (a @ b)"
  by (simp add: write_chunk_def)

lemma get_inv_write_chunk [simp]: "get_inv (write_chunk s n bs) i = get_inv s i"
  by (simp add: get_inv_def write_chunk_def)

lemma run_chunks:
  assumes "get_inv s i = Some iv" "iv_ws iv = WsOpen n" "iv_phase iv = Piping"
  shows "run s (map (Chunk i) chunks) = Some (write_chunk s n (concat chunks))"
  using assms
proof (induction chunks arbitrary: s)
  case Nil
  then show ?case by (simp add: write_chunk_def)
next
  case (Cons bs chunks)
  from Cons.prems have "run (write_chunk s n bs) (map (Chunk i) chunks) =
      Some (write_chunk (write_chunk s n bs) n (concat chunks))"
    by (intro Cons.IH) simp_all
  with Cons.prems show ?case by (simp add: write_chunk_append)
qed

lemmas step_defs = get_inv_def ack_done_def info_done_def file_opened_def
  stream_error_def send_done_def send_def set_inv_def unlink_if_exists_def start_action_def

text \<open>
  C5: a pressed button whose data the action pattern accepts, answered by every
  library call succeeding, runs the whole handler: the callback is
  acknowledged, the "downloading" reply sent, \<^verbatim>\<open>getInfo\<close> and \<^verbatim>\<open>ytdl\<close> called on
  \<^verbatim>\<open>https://www.youtube.com/watch?v=<id>\<close> with the preset of the chosen type,
  the downloaded bytes delivered as an attachment titled with the sanitised
  title, and the temporary file gone afterwards, whatever was at its path
  before; no other file is touched.
\<close>

theorem callback_happy_path:
  assumes "action_match d = Some (k, vid)"
  shows "\<exists>s'. run s ([Update (CallbackQuery c d), AckDone (length (invs s)) True,
              InfoDone (length (invs s)) (InfoTitle t) True, FileOpened (length (invs s))]
            @ map (Chunk (length (invs s))) chunks @ [StreamEnd (length (invs s)), SendDone (length (invs s)) True]) = Some s'
      \<and> files s' = (files s)(temp_path (bot_dir s) k vid := None)
      \<and> outbox s' = outbox s @ [AnswerCbQuery c, Reply c downloading_msg, attachment k c (concat chunks) (sanitize_title t)]
      \<and> ext_calls s' = ext_calls s @
            [GetInfo (js ''https://www.youtube.com/watch?v='' @ vid),
             Ytdl (js ''https://www.youtube.com/watch?v='' @ vid)
               (case k of Audio \<Rightarrow> YtdlOpts (Some (js ''audioonly'')) (js ''highestaudio'')
                        | Video \<Rightarrow> YtdlOpts None (js ''18''))]"
proof -
  let ?i = "length (invs s)"
  let ?p = "temp_path (bot_dir s) k vid"
  obtain s4 where r4: "run s [Update (CallbackQuery c d), AckDone ?i True, InfoDone ?i (InfoTitle t) True, FileOpened ?i] = Some s4"
    and g4: "get_inv s4 ?i = Some \<lparr>iv_chat = c, iv_kind = k, iv_vid = vid, iv_title = sanitize_title t,
          iv_path = ?p, iv_phase = Piping, iv_ws = WsOpen (next_inode s)\<rparr>"
    and f4: "files s4 = (files s)(?p \<mapsto> next_inode s)"
    and d4: "inode_data s4 (next_inode s) = []"
    and o4: "outbox s4 = outbox s @ [AnswerCbQuery c, Reply c downloading_msg]"
    and e4: "ext_calls s4 = ext_calls s @ [GetInfo (watch_url vid), Ytdl (watch_url vid) (ytdl_opts k)]"
    and b4: "bot_dir s4 = bot_dir s"
    using assms by (simp add: step_defs Let_def)
  let ?iv = "\<lparr>iv_chat = c, iv_kind = k, iv_vid = vid, iv_title = sanitize_title t,
          iv_path = ?p, iv_phase = Piping, iv_ws = WsOpen (next_inode s)\<rparr>"
  let ?s5 = "write_chunk s4 (next_inode s) (concat chunks)"
  have r5: "run s4 (map (Chunk ?i) chunks) = Some ?s5"
    using g4 by (rule run_chunks) simp_all
  have g5: "get_inv ?s5 ?i = Some ?iv" using g4 by simp
  have d5: "inode_data ?s5 (next_inode s) = concat chunks" using d4 by (simp add: write_chunk_def)
  have f5: "files ?s5 = files s4" by (simp add: write_chunk_def)
  obtain S where r6: "run ?s5 [StreamEnd ?i, SendDone ?i True] = Some S"
    and f6: "files S = (files ?s5)(?p := None)"
    and o6: "outbox S = outbox ?s5 @ [attachment k c (concat chunks) (sanitize_title t)]"
    and e6: "ext_calls S = ext_calls ?s5"
    using g5 f5 f4 d5 by (simp add: get_inv_def set_inv_def send_done_def send_def unlink_if_exists_def split: if_splits)
  from r4 r5 r6 have "run s ([Update (CallbackQuery c d), AckDone ?i True, InfoDone ?i (InfoTitle t) True, FileOpened ?i]
            @ map (Chunk ?i) chunks @ [StreamEnd ?i, SendDone ?i True]) = Some S"
    by (simp only: run_append option.case)
  moreover have "files S = (files s)(?p := None)"
    using f6 f5 f4 by simp
  moreover have "outbox S = outbox s @ [AnswerCbQuery c, Reply c downloading_msg, attachment k c (concat chunks) (sanitize_title t)]"
    using o6 o4 by (simp add: write_chunk_def)
  moreover have "ext_calls S = ext_calls s @
            [GetInfo (js ''https://www.youtube.com/watch?v='' @ vid),
             Ytdl (js ''https://www.youtube.com/watch?v='' @ vid)
               (case k of Audio \<Rightarrow> YtdlOpts (Some (js ''audioonly'')) (js ''highestaudio'')
                        | Video \<Rightarrow> YtdlOpts None (js ''18''))]"
    using e6 e4 by (simp add: write_chunk_def watch_url_def ytdl_opts_def)
  ultimately show ?thesis by blast
qed

theorem callback_happy_path_witness:
  "action_match (js ''audio_dQw4w9WgXcQ'') = Some (Audio, js ''dQw4w9WgXcQ'')
   \<and> (\<exists>s'. run (init_bot (abs_path [js ''app'']) Map.empty 0)
         ([Update (CallbackQuery 7 (js ''audio_dQw4w9WgXcQ'')), AckDone 0 True,
           InfoDone 0 (InfoTitle (js ''Song'')) True, FileOpened 0]
          @ map (Chunk 0) [[1, 2], [3]] @ [StreamEnd 0, SendDone 0 True]) = Some s'
      \<and> files s' = (files (init_bot (abs_path [js ''app'']) Map.empty 0))
                     (temp_path (abs_path [js ''app'']) Audio (js ''dQw4w9WgXcQ'') := None)
      \<and> outbox s' = [AnswerCbQuery 7, Reply 7 downloading_msg,
                     attachment Audio 7 (concat [[1, 2], [3]]) (sanitize_title (js ''Song''))]
      \<and> ext_calls s' = [GetInfo (js ''https://www.youtube.com/watch?v=dQw4w9WgXcQ''),
                        Ytdl (js ''https://www.youtube.com/watch?v=dQw4w9WgXcQ'')
                          (YtdlOpts (Some (js ''audioonly'')) (js ''highestaudio''))])"
proof -
  have h: "action_match (js ''audio_dQw4w9WgXcQ'') = Some (Audio, js ''dQw4w9WgXcQ'')"
    by (simp add: action_match_def action_alt_def media_tag_def rest_group_def is_line_terminator_def)
  show ?thesis
    using h callback_happy_path [OF h, of "init_bot (abs_path [js ''app'']) Map.empty 0" 7 "js ''Song''"
        "[[1, 2], [3]]"]
    by (simp add: init_bot_def)
qed

subsection \<open>Preservation of well-formedness\<close>

lemma inv_wf_mono: "inv_wf dir n iv \<Longrightarrow> n \<le> n' \<Longrightarrow> inv_wf dir n' iv"
  by (auto simp: inv_wf_def ws_below_def split: wstream.splits)

lemma bot_inv_get: "bot_inv s \<Longrightarrow> get_inv s i = Some iv \<Longrightarrow> inv_wf (bot_dir s) (next_inode s) iv"
  by (auto simp: bot_inv_def get_inv_def list_all_nth split: if_splits)

lemma bot_inv_set_inv:
  "bot_inv s \<Longrightarrow> inv_wf (bot_dir s) (next_inode s) iv \<Longrightarrow> bot_inv (set_inv s i iv)"
  by (simp add: bot_inv_def set_inv_def list_all_update)

lemma bot_inv_send [simp]: "bot_inv (send s m) = bot_inv s"
  by (simp add: bot_inv_def send_def)

lemma bot_inv_outbox [simp]: "bot_inv (s\<lparr>outbox := x\<rparr>) = bot_inv s"
  by (simp add: bot_inv_def)

lemma send_fields [simp]:
  "bot_dir (send s m) = bot_dir s" "next_inode (send s m) = next_inode s" "files (send s m) = files s"
  "invs (send s m) = invs s" "inode_data (send s m) = inode_data s"
  by (simp_all add: send_def)

lemma bot_inv_unlink: "bot_inv s \<Longrightarrow> bot_inv (unlink_if_exists s p)"
  by (auto simp: bot_inv_def unlink_if_exists_def ran_def)

lemma unlink_fields [simp]:
  "bot_dir (unlink_if_exists s p) = bot_dir s" "next_inode (unlink_if_exists s p) = next_inode s"
  "invs (unlink_if_exists s p) = invs s" "inode_data (unlink_if_exists s p) = inode_data s"
  "outbox (unlink_if_exists s p) = outbox s" "ext_calls (unlink_if_exists s p) = ext_calls s"
  by (simp_all add: unlink_if_exists_def)

lemma bot_inv_ext_calls [simp]: "bot_inv (s\<lparr>ext_calls := x\<rparr>) = bot_inv s"
  by (simp add: bot_inv_def)

lemma bot_inv_start_action:
  "bot_inv s \<Longrightarrow> action_match d = Some (k, vid) \<Longrightarrow> bot_inv (start_action s c k vid)"
  by (auto simp: bot_inv_def start_action_def send_def inv_wf_def ws_fits_def ws_below_def
      action_match_Some_iff)

lemma bot_inv_handle_update: "bot_inv s \<Longrightarrow> bot_inv (handle_update s u)"
  by (cases u) (auto split: option.splits intro: bot_inv_start_action)

lemma bot_inv_ack_done:
  "bot_inv s \<Longrightarrow> get_inv s i = Some iv \<Longrightarrow> iv_phase iv = AwaitAck \<Longrightarrow> bot_inv (ack_done s i iv ok)"
  by (frule (1) bot_inv_get) (auto simp: ack_done_def inv_wf_def ws_fits_def intro!: bot_inv_set_inv)


lemma bot_inv_info_done:
  "bot_inv s \<Longrightarrow> get_inv s i = Some iv \<Longrightarrow> iv_phase iv = AwaitInfo \<Longrightarrow> bot_inv (info_done s i iv r ok)"
  by (frule (1) bot_inv_get)
    (auto simp: info_done_def inv_wf_def ws_fits_def ws_below_def Let_def
      split: info_result.splits intro!: bot_inv_set_inv bot_inv_unlink)

lemma bot_inv_file_opened:
  "bot_inv s \<Longrightarrow> get_inv s i = Some iv \<Longrightarrow> iv_ws iv = WsOpening \<Longrightarrow> bot_inv (file_opened s i iv)"
proof -
  assume inv: "bot_inv s" and g: "get_inv s i = Some iv" and ws: "iv_ws iv = WsOpening"
  from inv g have wf: "inv_wf (bot_dir s) (next_inode s) iv" by (rule bot_inv_get)
  show "bot_inv (file_opened s i iv)"
  proof (cases "files s (iv_path iv)")
    case None
    let ?s' = "s\<lparr>files := (files s)(iv_path iv \<mapsto> next_inode s),
                inode_data := (inode_data s)(next_inode s := []), next_inode := Suc (next_inode s)\<rparr>"
    have "list_all (inv_wf (bot_dir s) (Suc (next_inode s))) (invs s)"
      using inv by (auto simp: bot_inv_def list_all_iff intro: inv_wf_mono)
    moreover have "\<forall>m\<in>ran (files ?s'). m < next_inode ?s'"
      using inv by (auto simp: bot_inv_def ran_def)
    ultimately have "bot_inv ?s'" by (simp add: bot_inv_def)
    moreover have "inv_wf (bot_dir ?s') (next_inode ?s') (iv\<lparr>iv_ws := WsOpen (next_inode s)\<rparr>)"
      using wf ws by (cases "iv_phase iv") (simp_all add: inv_wf_def ws_fits_def ws_below_def)
    ultimately show ?thesis using None by (simp add: file_opened_def Let_def bot_inv_set_inv)
  next
    case (Some n)
    with inv have "n < next_inode s" by (auto simp: bot_inv_def ran_def)
    with wf ws have "inv_wf (bot_dir s) (next_inode s) (iv\<lparr>iv_ws := WsOpen n\<rparr>)"
      by (cases "iv_phase iv") (simp_all add: inv_wf_def ws_fits_def ws_below_def)
    moreover from inv have "bot_inv (s\<lparr>inode_data := (inode_data s)(n := [])\<rparr>)"
      by (simp add: bot_inv_def)
    ultimately show ?thesis using Some by (simp add: file_opened_def bot_inv_set_inv)
  qed
qed

lemma bot_inv_write_chunk [simp]: "bot_inv (write_chunk s n bs) = bot_inv s"
  by (simp add: bot_inv_def write_chunk_def)

lemma bot_inv_stream_end:
  "bot_inv s \<Longrightarrow> get_inv s i = Some iv \<Longrightarrow> iv_ws iv = WsOpen n \<Longrightarrow> bot_inv (set_inv s i (iv\<lparr>iv_phase := Sending\<rparr>))"
  by (frule (1) bot_inv_get) (auto simp: inv_wf_def ws_fits_def intro!: bot_inv_set_inv)

lemma bot_inv_stream_error:
  "bot_inv s \<Longrightarrow> get_inv s i = Some iv \<Longrightarrow> bot_inv (stream_error s i iv)"
  by (frule (1) bot_inv_get)
    (auto simp: stream_error_def inv_wf_def ws_fits_def intro!: bot_inv_set_inv bot_inv_unlink)

lemma bot_inv_send_done:
  "bot_inv s \<Longrightarrow> get_inv s i = Some iv \<Longrightarrow> bot_inv (send_done s i iv ok)"
  by (frule (1) bot_inv_get)
    (auto simp: send_done_def inv_wf_def ws_fits_def
      split: option.splits intro!: bot_inv_set_inv bot_inv_unlink)

lemma bot_step_bot_inv: "bot_inv s \<Longrightarrow> bot_step s e = Some s' \<Longrightarrow> bot_inv s'"
proof (cases e)
  case (Update u)
  then show "bot_inv s \<Longrightarrow> bot_step s e = Some s' \<Longrightarrow> bot_inv s'"
    by (auto intro: bot_inv_handle_update)
next
  case (AckDone i ok)
  then show "bot_inv s \<Longrightarrow> bot_step s e = Some s' \<Longrightarrow> bot_inv s'"
    by (auto split: option.splits if_splits intro: bot_inv_ack_done)
next
  case (InfoDone i r ok)
  then show "bot_inv s \<Longrightarrow> bot_step s e = Some s' \<Longrightarrow> bot_inv s'"
    by (auto split: option.splits if_splits intro: bot_inv_info_done)
next
  case (FileOpened i)
  then show "bot_inv s \<Longrightarrow> bot_step s e = Some s' \<Longrightarrow> bot_inv s'"
    by (auto split: option.splits if_splits intro: bot_inv_file_opened)
next
  case (Chunk i bs)
  then show "bot_inv s \<Longrightarrow> bot_step s e = Some s' \<Longrightarrow> bot_inv s'"
    by (auto split: option.splits if_splits wstream.splits)
next
  case (StreamEnd i)
  then show "bot_inv s \<Longrightarrow> bot_step s e = Some s' \<Longrightarrow> bot_inv s'"
    by (auto split: option.splits if_splits wstream.splits intro: bot_inv_stream_end)
next
  case (StreamError i)
  then show "bot_inv s \<Longrightarrow> bot_step s e = Some s' \<Longrightarrow> bot_inv s'"
    by (auto split: option.splits if_splits intro: bot_inv_stream_error)
next
  case (SendDone i ok)
  then show "bot_inv s \<Longrightarrow> bot_step s e = Some s' \<Longrightarrow> bot_inv s'"
    by (auto split: option.splits if_splits intro: bot_inv_send_done)
qed


lemma reachable_inv_wf:
  "reachable s \<Longrightarrow> get_inv s i = Some iv \<Longrightarrow> inv_wf (bot_dir s) (next_inode s) iv"
proof -
  assume "reachable s"
  then have "bot_inv s"
  proof (induction rule: reachable.induct)
    case (start fs0 n0 dir)
    then show ?case by (simp add: bot_inv_def init_bot_def)
  next
    case (step s e s')
    then show ?case by (blast intro: bot_step_bot_inv)
  qed
  then show "get_inv s i = Some iv \<Longrightarrow> inv_wf (bot_dir s) (next_inode s) iv"
    by (rule bot_inv_get)
qed

lemma get_inv_set_inv [simp]:
  "i < length (invs s) \<Longrightarrow> get_inv (set_inv s i iv) j = (if j = i then Some iv else get_inv s j)"
  by (simp add: get_inv_def set_inv_def)

lemma get_inv_length: "get_inv s i = Some iv \<Longrightarrow> i < length (invs s)"
  by (simp add: get_inv_def split: if_splits)

lemma finished_quiet:
  "get_inv s i = Some iv \<Longrightarrow> iv_phase iv = Finished \<Longrightarrow> iv_ws iv \<noteq> WsOpening
   \<Longrightarrow> event_inv e = Some i \<Longrightarrow> bot_step s e = None"
  by (cases e) (auto split: wstream.splits)

lemma run_reachable: "reachable s \<Longrightarrow> run s evs = Some s' \<Longrightarrow> reachable s'"
proof (induction evs arbitrary: s)
  case Nil
  then show ?case by simp
next
  case (Cons e es)
  then show ?case by (auto split: option.splits intro: reachable.step)
qed

lemmas flow_eval = init_bot_def get_inv_def ack_done_def info_done_def file_opened_def write_chunk_def
  stream_error_def send_done_def send_def set_inv_def unlink_if_exists_def start_action_def
  attachment_def action_match_def action_alt_def media_tag_def rest_group_def is_line_terminator_def
  temp_path_def posix_join_def posix_normalize_def temp_file_name_def abs_path_def Let_def

subsection \<open>The file-system footprint\<close>

text \<open>Every continuation of an invocation keeps the type, identifier and path of
  every invocation and changes the directory only at its own path.\<close>

lemma ops_keys:
  assumes "get_inv s i = Some iv"
  shows "map inv_key (invs (ack_done s i iv ok)) = map inv_key (invs s)"
    and "map inv_key (invs (info_done s i iv r ok)) = map inv_key (invs s)"
    and "map inv_key (invs (file_opened s i iv)) = map inv_key (invs s)"
    and "map inv_key (invs (stream_error s i iv)) = map inv_key (invs s)"
    and "map inv_key (invs (send_done s i iv ok)) = map inv_key (invs s)"
    and "map inv_key (invs (set_inv s i (iv\<lparr>iv_phase := ph\<rparr>))) = map inv_key (invs s)"
  using assms
  by (auto simp: ack_done_def info_done_def file_opened_def stream_error_def send_done_def Let_def
      inv_key_def get_inv_def set_inv_def map_update
      split: info_result.splits option.splits if_splits)

lemma ops_files:
  shows "files (ack_done s i iv ok) p \<noteq> files s p \<Longrightarrow> p = iv_path iv"
    and "files (info_done s i iv r ok) p \<noteq> files s p \<Longrightarrow> p = iv_path iv"
    and "files (file_opened s i iv) p \<noteq> files s p \<Longrightarrow> p = iv_path iv"
    and "files (stream_error s i iv) p \<noteq> files s p \<Longrightarrow> p = iv_path iv"
    and "files (send_done s i iv ok) p \<noteq> files s p \<Longrightarrow> p = iv_path iv"
  by (auto simp: ack_done_def info_done_def file_opened_def stream_error_def send_done_def Let_def
      set_inv_def send_def unlink_if_exists_def split: info_result.splits option.splits if_splits)

lemma bot_dir_handle_update [simp]: "bot_dir (handle_update s u) = bot_dir s"
  by (cases u) (auto simp: start_action_def send_def split: option.splits)

lemma step_bot_dir: "bot_step s e = Some s' \<Longrightarrow> bot_dir s' = bot_dir s"
  by (cases e) (auto simp: step_defs write_chunk_def Let_def split: option.splits if_splits
      info_result.splits wstream.splits update.splits)

lemma step_files:
  "bot_step s e = Some s' \<Longrightarrow> files s' p \<noteq> files s p
   \<Longrightarrow> \<exists>i iv. event_inv e = Some i \<and> get_inv s i = Some iv \<and> p = iv_path iv"
proof (cases e)
  case (Update u)
  then show "bot_step s e = Some s' \<Longrightarrow> files s' p \<noteq> files s p \<Longrightarrow> ?thesis"
    by (cases u) (auto simp: start_action_def send_def split: option.splits)
next
  case (Chunk i bs)
  then show "bot_step s e = Some s' \<Longrightarrow> files s' p \<noteq> files s p \<Longrightarrow> ?thesis"
    by (auto simp: write_chunk_def split: option.splits if_splits wstream.splits)
next
  case (StreamEnd i)
  then show "bot_step s e = Some s' \<Longrightarrow> files s' p \<noteq> files s p \<Longrightarrow> ?thesis"
    by (auto simp: set_inv_def split: option.splits if_splits wstream.splits)
qed (auto simp: ops_files split: option.splits if_splits)

lemma step_keys:
  "bot_step s e = Some s' \<Longrightarrow>
   \<exists>new. map inv_key (invs s') = map inv_key (invs s) @ new
     \<and> (\<forall>x\<in>set new. \<exists>c k vid. e = Update (CallbackQuery c (cb_data k vid))
                               \<and> x = (k, vid, temp_path (bot_dir s) k vid))"
proof (cases e)
  case (Update u)
  then show "bot_step s e = Some s' \<Longrightarrow> ?thesis"
    by (cases u) (auto simp: start_action_def send_def inv_key_def action_match_Some_iff
        split: option.splits)
next
  case (Chunk i bs)
  then show "bot_step s e = Some s' \<Longrightarrow> ?thesis"
    by (auto simp: write_chunk_def split: option.splits if_splits wstream.splits)
next
  case (StreamEnd i)
  then show "bot_step s e = Some s' \<Longrightarrow> ?thesis"
    by (auto simp: ops_keys split: option.splits if_splits wstream.splits)
qed (auto simp: ops_keys split: option.splits if_splits)

lemma run_snoc:
  "run s (evs @ [e]) = Some s' \<longleftrightarrow> (\<exists>s1. run s evs = Some s1 \<and> bot_step s1 e = Some s')"
  by (simp add: run_append split: option.splits)

lemma run_keys_files:
  assumes "run (init_bot dir fs0 n0) evs = Some s"
  shows "bot_dir s = dir
    \<and> (\<forall>x\<in>set (map inv_key (invs s)). \<exists>c k vid. Update (CallbackQuery c (cb_data k vid)) \<in> set evs
                                           \<and> x = (k, vid, temp_path dir k vid))
    \<and> (\<forall>p. files s p \<noteq> fs0 p \<longrightarrow> (\<exists>x\<in>set (map inv_key (invs s)). p = snd (snd x)))"
  using assms
proof (induction evs arbitrary: s rule: rev_induct)
  case Nil
  then show ?case by (auto simp: init_bot_def)
next
  case (snoc e evs)
  from snoc.prems obtain s1 where r1: "run (init_bot dir fs0 n0) evs = Some s1"
    and st: "bot_step s1 e = Some s" by (auto simp: run_snoc)
  from r1 have IH: "bot_dir s1 = dir"
    "\<forall>x\<in>set (map inv_key (invs s1)). \<exists>c k vid. Update (CallbackQuery c (cb_data k vid)) \<in> set evs
                                           \<and> x = (k, vid, temp_path dir k vid)"
    "\<forall>p. files s1 p \<noteq> fs0 p \<longrightarrow> (\<exists>x\<in>set (map inv_key (invs s1)). p = snd (snd x))"
    using snoc.IH [OF r1] by blast+
  from st obtain new where keys: "map inv_key (invs s) = map inv_key (invs s1) @ new"
    and nw: "\<forall>x\<in>set new. \<exists>c k vid. e = Update (CallbackQuery c (cb_data k vid))
                               \<and> x = (k, vid, temp_path (bot_dir s1) k vid)"
    by (blast dest: step_keys)
  have dir: "bot_dir s = dir" using st IH(1) by (simp add: step_bot_dir)
  have "\<forall>x\<in>set (map inv_key (invs s)). \<exists>c k vid. Update (CallbackQuery c (cb_data k vid)) \<in> set (evs @ [e])
                                           \<and> x = (k, vid, temp_path dir k vid)"
    using IH(1,2) nw by (fastforce simp: keys)
  moreover have "\<exists>x\<in>set (map inv_key (invs s)). p = snd (snd x)" if "files s p \<noteq> fs0 p" for p
  proof (cases "files s p = files s1 p")
    case True
    with that have "files s1 p \<noteq> fs0 p" by simp
    with IH(3) obtain x where "x \<in> set (map inv_key (invs s1))" "p = snd (snd x)" by blast
    then show ?thesis unfolding keys set_append by blast
  next
    case False
    with st obtain i iv where "get_inv s1 i = Some iv" "p = iv_path iv" by (blast dest: step_files)
    then have "inv_key iv \<in> set (map inv_key (invs s1))" "p = snd (snd (inv_key iv))"
      by (auto simp: get_inv_def inv_key_def split: if_splits)
    then show ?thesis unfolding keys set_append by blast
  qed
  ultimately show ?case using dir by blast
qed

text \<open>
  C6: the bot's footprint on the file system: after any run from any start,
  every path whose directory entry differs from the start is the temporary path
  \<open>path.join(dir, type-id.ext)\<close> of a callback query, carrying the data
  \<open>type_id\<close>, that the run received. No handler creates, replaces or removes
  a file anywhere else.
\<close>

theorem run_footprint:
  assumes "run (init_bot dir fs0 n0) evs = Some s" "files s p \<noteq> fs0 p"
  shows "\<exists>c k vid. Update (CallbackQuery c (cb_data k vid)) \<in> set evs \<and> p = temp_path dir k vid"
  using run_keys_files [OF assms(1)] assms(2) by fastforce

theorem run_footprint_witness:
  "\<exists>S. run (init_bot (abs_path [js ''app'']) Map.empty 0)
         [Update (CallbackQuery 7 (js ''audio_dQw4w9WgXcQ'')), AckDone 0 True,
          InfoDone 0 (InfoTitle (js ''Song'')) True, FileOpened 0] = Some S
     \<and> files S (js ''/app/audio-dQw4w9WgXcQ.mp3'') \<noteq> Map.empty (js ''/app/audio-dQw4w9WgXcQ.mp3'')
     \<and> (\<exists>c k vid. Update (CallbackQuery c (cb_data k vid)) \<in> set
          [Update (CallbackQuery 7 (js ''audio_dQw4w9WgXcQ'')), AckDone 0 True,
           InfoDone 0 (InfoTitle (js ''Song'')) True, FileOpened 0]
          \<and> js ''/app/audio-dQw4w9WgXcQ.mp3'' = temp_path (abs_path [js ''app'']) k vid)"
proof -
  define S where "S = the (run (init_bot (abs_path [js ''app'']) Map.empty 0)
         [Update (CallbackQuery 7 (js ''audio_dQw4w9WgXcQ'')), AckDone 0 True,
          InfoDone 0 (InfoTitle (js ''Song'')) True, FileOpened 0])"
  have r: "run (init_bot (abs_path [js ''app'']) Map.empty 0)
         [Update (CallbackQuery 7 (js ''audio_dQw4w9WgXcQ'')), AckDone 0 True,
          InfoDone 0 (InfoTitle (js ''Song'')) True, FileOpened 0] = Some S"
    by (simp add: S_def flow_eval)
  have f: "files S (js ''/app/audio-dQw4w9WgXcQ.mp3'') \<noteq> Map.empty (js ''/app/audio-dQw4w9WgXcQ.mp3'')"
    by (simp add: S_def flow_eval)
  from run_footprint [OF r f] r f show ?thesis by blast
qed

subsection \<open>The error paths and the cleanup of each step\<close>

text \<open>
  C7: when \<^verbatim>\<open>getInfo\<close> fails, the handler sends exactly the "Failed to get
  video info" reply, touches no file and calls nothing else, and the invocation
  accepts no further event: no file is ever created for it.
\<close>

theorem info_error_ends_flow:
  assumes "reachable s" "get_inv s i = Some iv" "iv_phase iv = AwaitInfo"
    and "bot_step s (InfoDone i InfoError ok) = Some s'"
  shows "files s' = files s \<and> outbox s' = outbox s @ [Reply (iv_chat iv) info_failed_msg]
         \<and> ext_calls s' = ext_calls s \<and> (\<forall>e. event_inv e = Some i \<longrightarrow> bot_step s' e = None)"
proof -
  from assms(1,2) have wf: "inv_wf (bot_dir s) (next_inode s) iv" by (rule reachable_inv_wf)
  with assms(3) have ws: "iv_ws iv = WsNone" by (simp add: inv_wf_def ws_fits_def)
  from assms(2,3,4) have s': "s' = set_inv (send s (Reply (iv_chat iv) info_failed_msg)) i (iv\<lparr>iv_phase := Finished\<rparr>)"
    by (simp add: info_done_def)
  from assms(2) have "i < length (invs s)" by (rule get_inv_length)
  then have "get_inv s' i = Some (iv\<lparr>iv_phase := Finished\<rparr>)" by (simp add: s')
  with ws have "\<forall>e. event_inv e = Some i \<longrightarrow> bot_step s' e = None"
    by (auto intro: finished_quiet)
  then show ?thesis by (simp add: s' set_inv_def send_def)
qed

theorem info_error_ends_flow_witness:
  "\<exists>S iv S'. reachable S \<and> get_inv S 0 = Some iv \<and> iv_phase iv = AwaitInfo \<and> bot_step S (InfoDone 0 InfoError False) = Some S' \<and> files S' = files S \<and> outbox S' = outbox S @ [Reply (iv_chat iv) info_failed_msg]"
proof -
  define S where "S = the (run (init_bot (abs_path [js ''app'']) Map.empty 0) [Update (CallbackQuery 7 (js ''audio_dQw4w9WgXcQ'')), AckDone 0 True])"
  have r0: "reachable (init_bot (abs_path [js ''app'']) Map.empty 0)" by (rule reachable.start) simp
  have "run (init_bot (abs_path [js ''app'']) Map.empty 0) [Update (CallbackQuery 7 (js ''audio_dQw4w9WgXcQ'')), AckDone 0 True] = Some S" by (simp add: S_def flow_eval)
  with r0 have r: "reachable S" by (rule run_reachable)
  have g: "get_inv S 0 = Some (invs S ! 0)" by (simp add: S_def flow_eval)
  have p: "iv_phase (invs S ! 0) = AwaitInfo" by (simp add: S_def flow_eval)
  have b: "bot_step S (InfoDone 0 InfoError False) = Some (the (bot_step S (InfoDone 0 InfoError False)))"
    by (simp add: S_def flow_eval)
  from info_error_ends_flow [OF r g p b] r g p b show ?thesis by blast
qed

text \<open>
  C8: when \<^verbatim>\<open>getInfo\<close> succeeds, any file already at the temporary path is
  removed before the download starts (no other path is touched), the write
  stream's open is pending, the "Downloading" reply is sent and \<^verbatim>\<open>ytdl\<close> is
  called on the watch URL with the preset of the media type.
\<close>

theorem info_title_clears_path:
  assumes "get_inv s i = Some iv" "iv_phase iv = AwaitInfo"
    and "bot_step s (InfoDone i (InfoTitle t) True) = Some s'"
  shows "files s' = (files s)(iv_path iv := None)
         \<and> get_inv s' i = Some (iv\<lparr>iv_title := sanitize_title t, iv_phase := Piping, iv_ws := WsOpening\<rparr>)
         \<and> outbox s' = outbox s @ [Reply (iv_chat iv) downloading_msg]
         \<and> ext_calls s' = ext_calls s @ [Ytdl (watch_url (iv_vid iv)) (ytdl_opts (iv_kind iv))]"
proof -
  from assms have s': "s' = info_done s i iv (InfoTitle t) True" by simp
  from assms(1) have "i < length (invs s)" by (rule get_inv_length)
  then show ?thesis
    by (simp add: s' info_done_def Let_def set_inv_def send_def unlink_if_exists_def get_inv_def)
qed

theorem info_title_clears_path_witness:
  "\<exists>S iv S'. get_inv S 0 = Some iv \<and> iv_phase iv = AwaitInfo \<and> bot_step S (InfoDone 0 (InfoTitle (js ''Song'')) True) = Some S' \<and> files S' = (files S)(iv_path iv := None)"
proof -
  define S where "S = the (run (init_bot (abs_path [js ''app'']) Map.empty 0) [Update (CallbackQuery 7 (js ''audio_dQw4w9WgXcQ'')), AckDone 0 True])"
  have g: "get_inv S 0 = Some (invs S ! 0)" by (simp add: S_def flow_eval)
  have p: "iv_phase (invs S ! 0) = AwaitInfo" by (simp add: S_def flow_eval)
  have b: "bot_step S (InfoDone 0 (InfoTitle (js ''Song'')) True) = Some (the (bot_step S (InfoDone 0 (InfoTitle (js ''Song'')) True)))"
    by (simp add: S_def flow_eval)
  from info_title_clears_path [OF g p b] g p b show ?thesis by blast
qed

text \<open>
  C9: when the write stream opens, the temporary path holds an empty file (a
  stale file there is truncated, otherwise one is created) and the invocation
  writes to exactly that inode: a download never appends to old contents.
\<close>

theorem file_opened_truncates:
  assumes "get_inv s i = Some iv" "bot_step s (FileOpened i) = Some s'"
  shows "\<exists>n. files s' = (files s)(iv_path iv \<mapsto> n) \<and> inode_data s' n = []
             \<and> get_inv s' i = Some (iv\<lparr>iv_ws := WsOpen n\<rparr>)"
proof -
  from assms have s': "s' = file_opened s i iv" by (simp split: if_splits)
  from assms(1) have len: "i < length (invs s)" by (rule get_inv_length)
  show ?thesis
  proof (cases "files s (iv_path iv)")
    case None
    with len show ?thesis
      by (intro exI [of _ "next_inode s"]) (simp add: s' file_opened_def set_inv_def get_inv_def Let_def)
  next
    case (Some n)
    with len show ?thesis
      by (intro exI [of _ n]) (simp add: s' file_opened_def set_inv_def get_inv_def fun_upd_idem)
  qed
qed

theorem file_opened_truncates_witness:
  "\<exists>S iv S'. get_inv S 0 = Some iv \<and> bot_step S (FileOpened 0) = Some S' \<and> (\<exists>n. files S' = (files S)(iv_path iv \<mapsto> n) \<and> inode_data S' n = [])"
proof -
  define S where "S = the (run (init_bot (abs_path [js ''app'']) Map.empty 0) [Update (CallbackQuery 7 (js ''audio_dQw4w9WgXcQ'')), AckDone 0 True, InfoDone 0 (InfoTitle (js ''Song'')) True])"
  have g: "get_inv S 0 = Some (invs S ! 0)" by (simp add: S_def flow_eval)
  have b: "bot_step S (FileOpened 0) = Some (the (bot_step S (FileOpened 0)))"
    by (simp add: S_def flow_eval)
  from file_opened_truncates [OF g b] g b show ?thesis by blast
qed

text \<open>
  C10: on an error of the media stream, the handler sends the download-error
  reply and the temporary path is removed; when the file had already been
  opened, the invocation accepts no further event.
\<close>

theorem stream_error_cleanup:
  assumes "reachable s" "get_inv s i = Some iv" "bot_step s (StreamError i) = Some s'"
  shows "files s' = (files s)(iv_path iv := None)
         \<and> outbox s' = outbox s @ [Reply (iv_chat iv) download_error_msg]
         \<and> (iv_ws iv \<noteq> WsOpening \<longrightarrow> (\<forall>e. event_inv e = Some i \<longrightarrow> bot_step s' e = None))"
proof -
  from assms(2,3) have s': "s' = stream_error s i iv" by (simp split: if_splits)
  from assms(2) have "i < length (invs s)" by (rule get_inv_length)
  then have "get_inv s' i = Some (iv\<lparr>iv_phase := Finished\<rparr>)"
    by (simp add: s' stream_error_def set_inv_def get_inv_def)
  then have "iv_ws iv \<noteq> WsOpening \<longrightarrow> (\<forall>e. event_inv e = Some i \<longrightarrow> bot_step s' e = None)"
    by (auto intro: finished_quiet)
  then show ?thesis
    by (simp add: s' stream_error_def set_inv_def send_def unlink_if_exists_def)
qed

theorem stream_error_cleanup_witness:
  "\<exists>S iv S'. reachable S \<and> get_inv S 0 = Some iv \<and> bot_step S (StreamError 0) = Some S' \<and> files S' = (files S)(iv_path iv := None)"
proof -
  define S where "S = the (run (init_bot (abs_path [js ''app'']) Map.empty 0) [Update (CallbackQuery 7 (js ''audio_dQw4w9WgXcQ'')), AckDone 0 True, InfoDone 0 (InfoTitle (js ''Song'')) True, FileOpened 0])"
  have r0: "reachable (init_bot (abs_path [js ''app'']) Map.empty 0)" by (rule reachable.start) simp
  have "run (init_bot (abs_path [js ''app'']) Map.empty 0) [Update (CallbackQuery 7 (js ''audio_dQw4w9WgXcQ'')), AckDone 0 True, InfoDone 0 (InfoTitle (js ''Song'')) True, FileOpened 0] = Some S" by (simp add: S_def flow_eval)
  with r0 have r: "reachable S" by (rule run_reachable)
  have g: "get_inv S 0 = Some (invs S ! 0)" by (simp add: S_def flow_eval)
  have b: "bot_step S (StreamError 0) = Some (the (bot_step S (StreamError 0)))"
    by (simp add: S_def flow_eval)
  from stream_error_cleanup [OF r g b] r g b show ?thesis by blast
qed

text \<open>
  C11: when the upload settles, on success the attachment carries the bytes at the
  temporary path and the file is removed; on failure nothing is sent and the
  file stays on disk; either way the invocation accepts no further event.
\<close>

theorem send_done_outcome:
  assumes "reachable s" "get_inv s i = Some iv" "bot_step s (SendDone i ok) = Some s'"
  shows "files s' = (if ok then (files s)(iv_path iv := None) else files s)
         \<and> outbox s' = outbox s @ (case files s (iv_path iv) of
               Some n \<Rightarrow> if ok then [attachment (iv_kind iv) (iv_chat iv) (inode_data s n) (iv_title iv)] else []
             | None \<Rightarrow> [])
         \<and> (\<forall>e. event_inv e = Some i \<longrightarrow> bot_step s' e = None)"
proof -
  from assms(2,3) have ph: "iv_phase iv = Sending" and s': "s' = send_done s i iv ok"
    by (simp_all split: if_splits)
  from assms(1,2) have "inv_wf (bot_dir s) (next_inode s) iv" by (rule reachable_inv_wf)
  with ph have ws: "iv_ws iv \<noteq> WsOpening" by (auto simp: inv_wf_def ws_fits_def)
  from assms(2) have "i < length (invs s)" by (rule get_inv_length)
  then have "get_inv s' i = Some (iv\<lparr>iv_phase := Finished\<rparr>)"
    by (simp add: s' send_done_def split: option.splits)
  with ws have "\<forall>e. event_inv e = Some i \<longrightarrow> bot_step s' e = None"
    by (auto intro: finished_quiet)
  then show ?thesis
    by (auto simp: s' send_done_def set_inv_def send_def unlink_if_exists_def split: option.splits)
qed

theorem send_done_outcome_witness:
  "\<exists>S iv S'. reachable S \<and> get_inv S 0 = Some iv \<and> bot_step S (SendDone 0 True) = Some S' \<and> files S' = (files S)(iv_path iv := None)"
proof -
  define S where "S = the (run (init_bot (abs_path [js ''app'']) Map.empty 0) [Update (CallbackQuery 7 (js ''audio_dQw4w9WgXcQ'')), AckDone 0 True, InfoDone 0 (InfoTitle (js ''Song'')) True, FileOpened 0, Chunk 0 [1, 2], StreamEnd 0])"
  have r0: "reachable (init_bot (abs_path [js ''app'']) Map.empty 0)" by (rule reachable.start) simp
  have "run (init_bot (abs_path [js ''app'']) Map.empty 0) [Update (CallbackQuery 7 (js ''audio_dQw4w9WgXcQ'')), AckDone 0 True, InfoDone 0 (InfoTitle (js ''Song'')) True, FileOpened 0, Chunk 0 [1, 2], StreamEnd 0] = Some S" by (simp add: S_def flow_eval)
  with r0 have r: "reachable S" by (rule run_reachable)
  have g: "get_inv S 0 = Some (invs S ! 0)" by (simp add: S_def flow_eval)
  have b: "bot_step S (SendDone 0 True) = Some (the (bot_step S (SendDone 0 True)))"
    by (simp add: S_def flow_eval)
  from send_done_outcome [OF r g b]
  have "files (the (bot_step S (SendDone 0 True))) = (files S)(iv_path (invs S ! 0) := None)"
    by simp
  with r g b show ?thesis by blast
qed

text \<open>
  C12: when \<^verbatim>\<open>answerCbQuery\<close> rejects, the global error handler replies "Bot
  error!" and the invocation ends without touching a file or calling ytdl-core.
\<close>

theorem ack_failure_reply:
  assumes "reachable s" "get_inv s i = Some iv" "iv_phase iv = AwaitAck"
    and "bot_step s (AckDone i False) = Some s'"
  shows "outbox s' = outbox s @ [Reply (iv_chat iv) bot_error_msg] \<and> files s' = files s
         \<and> ext_calls s' = ext_calls s \<and> (\<forall>e. event_inv e = Some i \<longrightarrow> bot_step s' e = None)"
proof -
  from assms(1,2) have "inv_wf (bot_dir s) (next_inode s) iv" by (rule reachable_inv_wf)
  with assms(3) have ws: "iv_ws iv = WsNone" by (simp add: inv_wf_def ws_fits_def)
  from assms(2,3,4) have s': "s' = ack_done s i iv False" by simp
  from assms(2) have "i < length (invs s)" by (rule get_inv_length)
  then have "get_inv s' i = Some (iv\<lparr>iv_phase := Finished\<rparr>)" by (simp add: s' ack_done_def)
  with ws have "\<forall>e. event_inv e = Some i \<longrightarrow> bot_step s' e = None"
    by (auto intro: finished_quiet)
  then show ?thesis by (simp add: s' ack_done_def set_inv_def send_def)
qed

theorem ack_failure_reply_witness:
  "\<exists>S iv S'. reachable S \<and> get_inv S 0 = Some iv \<and> iv_phase iv = AwaitAck \<and> bot_step S (AckDone 0 False) = Some S' \<and> outbox S' = outbox S @ [Reply (iv_chat iv) bot_error_msg]"
proof -
  define S where "S = the (run (init_bot (abs_path [js ''app'']) Map.empty 0) [Update (CallbackQuery 7 (js ''audio_dQw4w9WgXcQ''))])"
  have r0: "reachable (init_bot (abs_path [js ''app'']) Map.empty 0)" by (rule reachable.start) simp
  have "run (init_bot (abs_path [js ''app'']) Map.empty 0) [Update (CallbackQuery 7 (js ''audio_dQw4w9WgXcQ''))] = Some S" by (simp add: S_def flow_eval)
  with r0 have r: "reachable S" by (rule run_reachable)
  have g: "get_inv S 0 = Some (invs S ! 0)" by (simp add: S_def flow_eval)
  have p: "iv_phase (invs S ! 0) = AwaitAck" by (simp add: S_def flow_eval)
  have b: "bot_step S (AckDone 0 False) = Some (the (bot_step S (AckDone 0 False)))"
    by (simp add: S_def flow_eval)
  from ack_failure_reply [OF r g p b] r g p b show ?thesis by blast
qed

text \<open>
  C13: a text message makes the bot send exactly one message and changes nothing
  else.
\<close>

theorem text_update_single_reply:
  "\<exists>m. bot_step s (Update (TextMsg c t)) = Some (s\<lparr>outbox := outbox s @ [m]\<rparr>)"
  by (auto simp: on_text_def split: option.splits)

subsection \<open>Interference and orphaned files\<close>

text \<open>
  C19: two invocations for the same type and identifier share one temporary
  path, and nothing keeps them apart. While one invocation is writing to the
  file at the path, the other's stale-file cleanup and open unlink that file and
  link a new empty inode there; the first keeps writing to its old, now
  unlinked, inode, and its upload (C11) will read the second's file.
\<close>

theorem same_path_replaces_live_file:
  assumes "reachable s" "get_inv s i = Some iv" "iv_ws iv = WsOpen n"
    and "get_inv s j = Some jv" "iv_path jv = iv_path iv"
    and "bot_step s (InfoDone j (InfoTitle t) True) = Some s1" "bot_step s1 (FileOpened j) = Some s2"
  shows "get_inv s2 i = Some iv
         \<and> (\<exists>n' jv'. n' \<noteq> n \<and> files s2 (iv_path iv) = Some n' \<and> inode_data s2 n' = []
                     \<and> get_inv s2 j = Some jv' \<and> iv_ws jv' = WsOpen n')"
proof -
  from assms(4,6) have ph: "iv_phase jv = AwaitInfo" and s1: "s1 = info_done s j jv (InfoTitle t) True"
    by (simp_all split: if_splits)
  from assms(1,2) have "inv_wf (bot_dir s) (next_inode s) iv" by (rule reachable_inv_wf)
  with assms(3) have below: "n < next_inode s" by (simp add: inv_wf_def ws_below_def)
  from assms(1,4) have "inv_wf (bot_dir s) (next_inode s) jv" by (rule reachable_inv_wf)
  with ph have "iv_ws jv = WsNone" by (simp add: inv_wf_def ws_fits_def)
  with assms(2,3,4) have ij: "i \<noteq> j" by auto
  let ?jv1 = "jv\<lparr>iv_title := sanitize_title t, iv_phase := Piping, iv_ws := WsOpening\<rparr>"
  from assms(2,4) ij have g1: "get_inv s1 i = Some iv" "get_inv s1 j = Some ?jv1"
    and f1: "files s1 (iv_path iv) = None" and n1: "next_inode s1 = next_inode s"
    using assms(5) by (auto simp: s1 info_done_def Let_def set_inv_def send_def unlink_if_exists_def
        get_inv_def split: if_splits)
  from assms(7) g1(2) have s2: "s2 = file_opened s1 j ?jv1" by simp
  from g1 have "j < length (invs s1)" by (simp add: get_inv_def split: if_splits)
  with g1 f1 ij assms(5) have "get_inv s2 i = Some iv \<and> files s2 (iv_path iv) = Some (next_inode s)
      \<and> inode_data s2 (next_inode s) = [] \<and> get_inv s2 j = Some (?jv1\<lparr>iv_ws := WsOpen (next_inode s)\<rparr>)"
    by (auto simp: s2 file_opened_def Let_def set_inv_def n1 get_inv_def split: if_splits)
  with below show ?thesis by fastforce
qed

theorem same_path_replaces_live_file_witness:
  "\<exists>S iv jv S1 S2 n. reachable S \<and> get_inv S 0 = Some iv \<and> iv_ws iv = WsOpen n
     \<and> get_inv S 1 = Some jv \<and> iv_path jv = iv_path iv
     \<and> bot_step S (InfoDone 1 (InfoTitle (js ''T'')) True) = Some S1 \<and> bot_step S1 (FileOpened 1) = Some S2
     \<and> get_inv S2 0 = Some iv \<and> (\<exists>n'. n' \<noteq> n \<and> files S2 (iv_path iv) = Some n')"
proof -
  define evs where "evs = [Update (CallbackQuery 1 (js ''audio_dQw4w9WgXcQ'')),
    Update (CallbackQuery 2 (js ''audio_dQw4w9WgXcQ'')), AckDone 0 True, AckDone 1 True,
    InfoDone 0 (InfoTitle (js ''T'')) True, FileOpened 0]"
  define S where "S = the (run (init_bot (abs_path [js ''app'']) Map.empty 0) evs)"
  define S1 where "S1 = the (bot_step S (InfoDone 1 (InfoTitle (js ''T'')) True))"
  define S2 where "S2 = the (bot_step S1 (FileOpened 1))"
  have r0: "reachable (init_bot (abs_path [js ''app'']) Map.empty 0)" by (rule reachable.start) simp
  have "run (init_bot (abs_path [js ''app'']) Map.empty 0) evs = Some S" by (simp add: S_def evs_def flow_eval)
  with r0 have r: "reachable S" by (rule run_reachable)
  have g0: "get_inv S 0 = Some (invs S ! 0)" and w: "iv_ws (invs S ! 0) = WsOpen 0"
    and g1: "get_inv S 1 = Some (invs S ! 1)" and p: "iv_path (invs S ! 1) = iv_path (invs S ! 0)"
    by (simp_all add: S_def evs_def flow_eval)
  have b1: "bot_step S (InfoDone 1 (InfoTitle (js ''T'')) True) = Some S1"
    by (simp add: S1_def S_def evs_def flow_eval)
  have b2: "bot_step S1 (FileOpened 1) = Some S2"
    by (simp add: S2_def S1_def S_def evs_def flow_eval)
  from same_path_replaces_live_file [OF r g0 w g1 p b1 b2] r g0 w g1 p b1 b2 show ?thesis by blast
qed

text \<open>
  C20: when the media stream fails before the write stream's open completes,
  the error listener replies and finds no file to remove; the open then creates
  an empty file at the temporary path, and no later event of the invocation can
  remove it.
\<close>

theorem early_error_orphans_file:
  assumes "get_inv s i = Some iv" "iv_ws iv = WsOpening"
    and "bot_step s (StreamError i) = Some s1" "bot_step s1 (FileOpened i) = Some s2"
  shows "\<exists>n. files s2 (iv_path iv) = Some n \<and> inode_data s2 n = []
             \<and> outbox s2 = outbox s @ [Reply (iv_chat iv) download_error_msg]
             \<and> (\<forall>e. event_inv e = Some i \<longrightarrow> bot_step s2 e = None)"
proof -
  let ?iv1 = "iv\<lparr>iv_phase := Finished\<rparr>"
  from assms(1,3) have s1: "s1 = stream_error s i iv" by (simp split: if_splits)
  from assms(1) have len: "i < length (invs s)" by (rule get_inv_length)
  then have g1: "get_inv s1 i = Some ?iv1" and f1: "files s1 (iv_path iv) = None"
    and o1: "outbox s1 = outbox s @ [Reply (iv_chat iv) download_error_msg]"
    by (simp_all add: s1 stream_error_def set_inv_def send_def unlink_if_exists_def get_inv_def)
  from assms(2,4) g1 have s2: "s2 = file_opened s1 i ?iv1" by simp
  from len have "i < length (invs s1)" by (simp add: s1 stream_error_def set_inv_def)
  with f1 have "files s2 (iv_path iv) = Some (next_inode s1) \<and> inode_data s2 (next_inode s1) = []
      \<and> outbox s2 = outbox s1 \<and> get_inv s2 i = Some (?iv1\<lparr>iv_ws := WsOpen (next_inode s1)\<rparr>)"
    by (simp add: s2 file_opened_def Let_def set_inv_def get_inv_def)
  with o1 show ?thesis by (auto intro: finished_quiet)
qed

theorem early_error_orphans_file_witness:
  "\<exists>S iv S1 S2. get_inv S 0 = Some iv \<and> iv_ws iv = WsOpening
     \<and> bot_step S (StreamError 0) = Some S1 \<and> bot_step S1 (FileOpened 0) = Some S2
     \<and> (\<exists>n. files S2 (iv_path iv) = Some n)"
proof -
  define S where "S = the (run (init_bot (abs_path [js ''app'']) Map.empty 0)
    [Update (CallbackQuery 1 (js ''video_dQw4w9WgXcQ'')), AckDone 0 True, InfoDone 0 (InfoTitle (js ''T'')) True])"
  define S1 where "S1 = the (bot_step S (StreamError 0))"
  define S2 where "S2 = the (bot_step S1 (FileOpened 0))"
  have g: "get_inv S 0 = Some (invs S ! 0)" and w: "iv_ws (invs S ! 0) = WsOpening"
    by (simp_all add: S_def flow_eval)
  have b1: "bot_step S (StreamError 0) = Some S1" by (simp add: S1_def S_def flow_eval)
  have b2: "bot_step S1 (FileOpened 0) = Some S2" by (simp add: S2_def S1_def S_def flow_eval)
  from early_error_orphans_file [OF g w b1 b2] g w b1 b2 show ?thesis by blast
qed

end
