(* ===== verification/Spec2Isabelle.thy ===== *)
theory Spec2Isabelle
  imports Bot_Flow
begin

text \<open>
  \<^bold>\<open>A verification model of the YouTube download bot \<^verbatim>\<open>src/ytdl-t.m.js\<close>.\<close>

  \<^bold>\<open>The program.\<close> One Node.js script registers Telegraf handlers: \<^verbatim>\<open>bot.start\<close>
  (a greeting), \<^verbatim>\<open>bot.on('text')\<close> (find a YouTube link with \<^verbatim>\<open>YT_REGEX\<close> and offer
  two buttons whose callback data is \<^verbatim>\<open>video_<id>\<close> and \<^verbatim>\<open>audio_<id>\<close>),
  \<^verbatim>\<open>bot.action(/^(video|audio)_(.+)$/)\<close> (acknowledge, \<^verbatim>\<open>ytdl.getInfo\<close>, sanitise
  the title, remove a stale temporary file, pipe the \<^verbatim>\<open>ytdl\<close> stream into
  \<^verbatim>\<open><dir>/<type>-<id>.mp3|mp4\<close>, upload the file, delete it) and \<^verbatim>\<open>bot.catch\<close>
  (reply "Bot error!"). The only state shared between handler invocations is the
  file system; all session state travels in the callback data.

  \<^bold>\<open>Theories.\<close>
  \<^item> \<open>Prelude\<close>: JavaScript strings as lists of UTF-16 code units (\<open>jstr\<close> =
    \<open>16 word list\<close>, literals through \<open>js\<close>), bytes, prefix tests, scanning
    lemmas, \<open>join_with\<close>.
  \<^item> \<open>Chat\<close>: the chat-protocol interface, a datatype \<open>outmsg\<close> with one constructor
    per Telegraf context method the script calls, and every reply text (lines
    12--93) code unit for code unit.
  \<^item> \<open>Callback_Token\<close>: \<open>cb_data\<close> (line 27) and the action pattern
    \<open>action_match\<close> (line 32). Lemmas: the round trips in both directions.
  \<^item> \<open>Link_Parser\<close>: \<^verbatim>\<open>YT_REGEX\<close> as \<open>yt_alt\<close> (one alternative), \<open>yt_match_at\<close> (one
    start position, alternatives in order), \<open>yt_exec\<close> (the leftmost scan of
    \<^verbatim>\<open>String.prototype.match\<close>), and the text handler \<open>on_text\<close> (lines 15--30).
    Lemmas: the matcher decides exactly the language of the expression at a
    position, the scan returns the leftmost match, the handler's two branches.
  \<^item> \<open>Title_Sanitizer\<close>: \<open>sanitize_title\<close> (line 44) over code units. Lemmas:
    idempotence, the fixed points, surrogate pairs.
  \<^item> \<open>Temp_Path\<close>: \<open>temp_file_name\<close> and \<open>temp_path\<close> (lines 46--50), with Node's
    \<^verbatim>\<open>path.join\<close> modelled from Node's POSIX implementation (\<open>posix_join\<close>,
    \<open>posix_normalize\<close>). Lemma: a slash-free identifier gives a direct child of
    the directory.
  \<^item> \<open>Bot_Flow\<close>: the whole bot as an event-driven machine. The state
    (\<open>bot\<close>) holds the directory entries (\<open>files\<close>, path to inode), the inode
    contents, the handler invocations (\<open>invs\<close>, indexed by arrival; each records
    where it is suspended, \<open>phase\<close>, and its write stream, \<open>wstream\<close>), the
    requests to the chat service (\<open>outbox\<close>) and to ytdl-core (\<open>ext_calls\<close>). An
    \<open>event\<close> is an incoming update or the settling of one asynchronous operation
    of one invocation; \<open>bot_step\<close> runs the code that event resumes
    (\<open>handle_update\<close>, \<open>ack_done\<close>, \<open>info_done\<close>, \<open>file_opened\<close>, \<open>write_chunk\<close>,
    \<open>stream_error\<close>, \<open>send_done\<close>, one per continuation of the source) and is
    \<open>None\<close> for an event that cannot happen. Any interleaving of invocations is
    a list of events (\<open>run\<close>); \<open>reachable\<close> is the inductive set of states
    reachable from a start with arbitrary directory contents, with the
    well-formedness invariant \<open>bot_inv\<close> proved by rule induction and used by
    the error-path lemmas. Lemmas: the end-to-end run of one callback; the
    file-system footprint of any run (every changed directory entry is the
    temporary path of a received callback, by induction over the run with a
    frame lemma per continuation); each error path and its cleanup; and, for
    any states, the interference of two invocations that share a path and the
    empty file an early stream error leaves behind.
  \<^item> This theory: properties that span the link parser, the callback token,
    the path computation and the machine. The data of any button the bot
    offers names a file directly inside its directory. Conversely, for any
    directory and any file elsewhere, forged callback data exists that the
    action pattern accepts and whose stale-file cleanup deletes that file.

  \<^bold>\<open>Choices.\<close> Every definition is executable and structural (no fuel is
  needed: the scan and the normalisation recurse on lists, and the machine is
  run over finite event lists). The libraries' results (\<^verbatim>\<open>answerCbQuery\<close>,
  \<^verbatim>\<open>getInfo\<close>, the bytes and end or error of the \<^verbatim>\<open>ytdl\<close> stream, the upload)
  are inputs carried by the events, so every theorem holds for whatever the
  libraries return. Reading the file for an upload is atomic with the upload's
  completion. Text replies are assumed to be delivered.

  \<^bold>\<open>Not modelled.\<close> Process start-up (\<^verbatim>\<open>dotenv\<close>, \<^verbatim>\<open>new Telegraf\<close>,
  \<^verbatim>\<open>bot.launch\<close>), logging, the empty \<^verbatim>\<open>'progress'\<close> listener, the internals of
  Telegraf and ytdl-core, and Node's behaviour on unhandled promise rejections
  and unhandled \<^verbatim>\<open>'error'\<close> events. In particular these are not modelled:
  \<^item> a synchronous throw of \<^verbatim>\<open>createWriteStream\<close> (only a \<^verbatim>\<open>ytdl(...)\<close> throw
    is distinguished in \<open>info_done\<close>);
  \<^item> an asynchronous failure to open the write stream (a missing directory or a
    denied permission: an \<^verbatim>\<open>'error'\<close> on the write stream, which no listener
    handles); \<open>file_opened\<close> always succeeds;
  \<^item> data piped before the open completes (the model's write stream accepts
    chunks only once open);
  \<^item> a callback without \<^verbatim>\<open>ctx.chat\<close>, a \<^verbatim>\<open>getInfo\<close> result without a title (a
    TypeError caught by \<^verbatim>\<open>bot.catch\<close>), and \<^verbatim>\<open>existsSync\<close> holding for a
    directory at the temporary path (then \<^verbatim>\<open>unlinkSync\<close> throws).
\<close>

text \<open>
  C18: the callback data of a button the text handler offers can only name a
  file directly inside the bot's directory: whatever message the user sent, the
  identifier the action handler decodes from a button of the keyboard is eleven
  identifier characters, so \<^verbatim>\<open>path.join\<close> yields \<^verbatim>\<open><dir>/audio-<id>.mp3\<close> or
  \<^verbatim>\<open><dir>/video-<id>.mp4\<close>. Only data the bot never offered escapes the
  directory.
\<close>

theorem offered_token_stays_in_dir:
  assumes "on_text c t = [ReplyKeyboard c choice_prompt_msg kb]" "b \<in> set (concat kb)"
    and "action_match (btn_data b) = Some (k, v)" "segs \<noteq> []" "list_all plain_seg segs"
  shows "temp_path (abs_path segs) k v = abs_path (segs @ [temp_file_name k v])"
proof -
  from assms(1) obtain g where g: "yt_exec t = Some g" and kb: "kb = choice_keyboard g"
    by (blast dest: on_text_keyboard)
  from assms(2) kb obtain k' where "btn_data b = cb_data k' g"
    by (auto simp: choice_keyboard_def)
  with assms(3) have v: "v = g" by (simp add: action_match_Some_iff)
  from g have "0x2F \<notin> set v" by (simp add: v yt_exec_valid_id valid_video_id_no_slash)
  then have "plain_seg (temp_file_name k v)" by (rule plain_seg_temp_file_name)
  with assms(4,5) show ?thesis
    by (simp add: temp_path_def posix_join_abs_path list_all_iff)
qed
theorem offered_token_stays_in_dir_witness:
  "on_text 42 (js ''see https://www.youtube.com/watch?v=dQw4w9WgXcQ'')
     = [ReplyKeyboard 42 choice_prompt_msg (choice_keyboard (js ''dQw4w9WgXcQ''))]
   \<and> CallbackButton audio_label (cb_data Audio (js ''dQw4w9WgXcQ'')) \<in> set (concat (choice_keyboard (js ''dQw4w9WgXcQ'')))
   \<and> action_match (btn_data (CallbackButton audio_label (cb_data Audio (js ''dQw4w9WgXcQ''))))
       = Some (Audio, js ''dQw4w9WgXcQ'')
   \<and> [js ''srv'', js ''bot''] \<noteq> [] \<and> list_all plain_seg [js ''srv'', js ''bot'']
   \<and> temp_path (abs_path [js ''srv'', js ''bot'']) Audio (js ''dQw4w9WgXcQ'')
       = js ''/srv/bot/audio-dQw4w9WgXcQ.mp3''"
proof -
  have h1: "on_text 42 (js ''see https://www.youtube.com/watch?v=dQw4w9WgXcQ'')
     = [ReplyKeyboard 42 choice_prompt_msg (choice_keyboard (js ''dQw4w9WgXcQ''))]"
    by (simp add: on_text_def yt_match_at_def yt_alt_def id_group_def valid_video_id_def
        is_id_char_def yt_watch_prefix_def yt_short_prefix_def)
  have h2: "CallbackButton audio_label (cb_data Audio (js ''dQw4w9WgXcQ'')) \<in> set (concat (choice_keyboard (js ''dQw4w9WgXcQ'')))"
    by (simp add: choice_keyboard_def)
  have h3: "action_match (btn_data (CallbackButton audio_label (cb_data Audio (js ''dQw4w9WgXcQ''))))
       = Some (Audio, js ''dQw4w9WgXcQ'')"
    by (simp add: action_match_def action_alt_def cb_data_def media_tag_def rest_group_def
        is_line_terminator_def)
  have h4: "[js ''srv'', js ''bot''] \<noteq> []" by simp
  have h5: "list_all plain_seg [js ''srv'', js ''bot'']" by (simp add: plain_seg_def)
  have "temp_path (abs_path [js ''srv'', js ''bot'']) Audio (js ''dQw4w9WgXcQ'')
        = abs_path ([js ''srv'', js ''bot''] @ [temp_file_name Audio (js ''dQw4w9WgXcQ'')])"
    by (rule offered_token_stays_in_dir [OF h1 h2 h3 h4 h5])
  then show ?thesis using h1 h2 h3 h4 h5 by (simp add: abs_path_def temp_file_name_def)
qed

text \<open>
  C21: the action handler does not check the identifier in the callback data,
  and \<^verbatim>\<open>path.join\<close> resolves \<^verbatim>\<open>..\<close>. For any bot directory and any
  file anywhere on the system, callback data made of a genuine identifier, one
  \<^verbatim>\<open>/..\<close> more than the directory has segments and the file's path (without
  its extension) is accepted by the action pattern. Once \<^verbatim>\<open>getInfo\<close>
  succeeds, the stale-file cleanup of line 53 deletes that file. (C18: no button
  the bot offers carries such data.)
\<close>

theorem forged_callback_deletes_target:
  assumes "bot_dir s = abs_path segs" "segs \<noteq> []" "list_all plain_seg segs"
    and "list_all plain_seg ts" "plain_seg f" "valid_video_id x"
    and "\<not> list_ex is_line_terminator (concat ts @ f)"
  shows "\<exists>s'. run s [Update (CallbackQuery c (cb_data k
                  (x @ concat (replicate (Suc (length segs)) (js ''/..'')) @ abs_path (ts @ [f])))),
                AckDone (length (invs s)) True, InfoDone (length (invs s)) (InfoTitle t) True] = Some s'
           \<and> files s' (abs_path (ts @ [f @ (case k of Audio \<Rightarrow> js ''.mp3'' | Video \<Rightarrow> js ''.mp4'')])) = None"
proof -
  define v where "v = x @ concat (replicate (Suc (length segs)) (js ''/..'')) @ abs_path (ts @ [f])"
  from assms(6) have "x \<noteq> []" by (auto simp: valid_video_id_def)
  moreover from assms(6) have "\<not> list_ex is_line_terminator x" by (rule valid_video_id_line)
  ultimately have "token_payload v"
    using assms(7) by (auto simp: v_def token_payload_def list_ex_iff abs_path_def is_line_terminator_def)
  then have am: "action_match (cb_data k v) = Some (k, v)" by (simp add: action_match_Some_iff)
  from assms(6) have "0x2F \<notin> set x" by (rule valid_video_id_no_slash)
  with assms(2-5) have tp: "temp_path (bot_dir s) k v
      = abs_path (ts @ [f @ (case k of Audio \<Rightarrow> js ''.mp3'' | Video \<Rightarrow> js ''.mp4'')])"
    unfolding assms(1) v_def by (intro temp_path_escape) (simp_all add: list_all_iff)
  show ?thesis
    using am tp unfolding v_def [symmetric]
    by (simp add: start_action_def send_def ack_done_def info_done_def set_inv_def get_inv_def
        unlink_if_exists_def Let_def nth_append)
qed

theorem forged_callback_deletes_target_witness:
  "bot_dir (init_bot (abs_path [js ''srv'', js ''bot'']) [js ''/tmp/x.mp3'' \<mapsto> 0] 1) = abs_path [js ''srv'', js ''bot'']
   \<and> list_all plain_seg [js ''srv'', js ''bot''] \<and> list_all plain_seg [js ''tmp''] \<and> plain_seg (js ''x'')
   \<and> valid_video_id (js ''dQw4w9WgXcQ'')
   \<and> \<not> list_ex is_line_terminator (concat [js ''tmp''] @ js ''x'')
   \<and> cb_data Audio (js ''dQw4w9WgXcQ'' @ concat (replicate 3 (js ''/..'')) @ abs_path [js ''tmp'', js ''x''])
       = js ''audio_dQw4w9WgXcQ/../../../tmp/x''
   \<and> files (init_bot (abs_path [js ''srv'', js ''bot'']) [js ''/tmp/x.mp3'' \<mapsto> 0] 1) (js ''/tmp/x.mp3'') = Some 0
   \<and> (\<exists>s'. run (init_bot (abs_path [js ''srv'', js ''bot'']) [js ''/tmp/x.mp3'' \<mapsto> 0] 1)
          [Update (CallbackQuery 1 (js ''audio_dQw4w9WgXcQ/../../../tmp/x'')), AckDone 0 True,
           InfoDone 0 (InfoTitle (js ''T'')) True] = Some s'
          \<and> files s' (js ''/tmp/x.mp3'') = None)"
proof -
  have h1: "bot_dir (init_bot (abs_path [js ''srv'', js ''bot'']) [js ''/tmp/x.mp3'' \<mapsto> 0] 1) = abs_path [js ''srv'', js ''bot'']"
    by (simp add: init_bot_def)
  have h2: "[js ''srv'', js ''bot''] \<noteq> []" by simp
  have h3: "list_all plain_seg [js ''srv'', js ''bot'']" "list_all plain_seg [js ''tmp'']" "plain_seg (js ''x'')"
    by (simp_all add: plain_seg_def)
  have h4: "valid_video_id (js ''dQw4w9WgXcQ'')" by (simp add: valid_video_id_def is_id_char_def)
  have h5: "\<not> list_ex is_line_terminator (concat [js ''tmp''] @ js ''x'')" by (simp add: is_line_terminator_def)
  have cb: "cb_data Audio (js ''dQw4w9WgXcQ'' @ concat (replicate 3 (js ''/..'')) @ abs_path [js ''tmp'', js ''x''])
       = js ''audio_dQw4w9WgXcQ/../../../tmp/x''"
    by (simp add: cb_data_def media_tag_def abs_path_def numeral_3_eq_3)
  have e1: "cb_data Audio (js ''dQw4w9WgXcQ'' @ concat (replicate (Suc (length [js ''srv'', js ''bot''])) (js ''/..''))
             @ abs_path ([js ''tmp''] @ [js ''x''])) = js ''audio_dQw4w9WgXcQ/../../../tmp/x''"
    by (simp add: cb_data_def media_tag_def abs_path_def)
  have e2: "length (invs (init_bot (abs_path [js ''srv'', js ''bot'']) [js ''/tmp/x.mp3'' \<mapsto> 0] 1)) = 0"
    by (simp add: init_bot_def)
  have e3: "abs_path ([js ''tmp''] @ [js ''x'' @ (case Audio of Audio \<Rightarrow> js ''.mp3'' | Video \<Rightarrow> js ''.mp4'')])
      = js ''/tmp/x.mp3''"
    by (simp add: abs_path_def)
  have "\<exists>s'. run (init_bot (abs_path [js ''srv'', js ''bot'']) [js ''/tmp/x.mp3'' \<mapsto> 0] 1)
          [Update (CallbackQuery 1 (cb_data Audio (js ''dQw4w9WgXcQ'' @ concat (replicate (Suc (length [js ''srv'', js ''bot''])) (js ''/..''))
             @ abs_path ([js ''tmp''] @ [js ''x''])))),
           AckDone (length (invs (init_bot (abs_path [js ''srv'', js ''bot'']) [js ''/tmp/x.mp3'' \<mapsto> 0] 1))) True,
           InfoDone (length (invs (init_bot (abs_path [js ''srv'', js ''bot'']) [js ''/tmp/x.mp3'' \<mapsto> 0] 1))) (InfoTitle (js ''T'')) True] = Some s'
          \<and> files s' (abs_path ([js ''tmp''] @ [js ''x'' @ (case Audio of Audio \<Rightarrow> js ''.mp3'' | Video \<Rightarrow> js ''.mp4'')])) = None"
    by (rule forged_callback_deletes_target [OF h1 h2 h3 h4 h5])
  then have "\<exists>s'. run (init_bot (abs_path [js ''srv'', js ''bot'']) [js ''/tmp/x.mp3'' \<mapsto> 0] 1)
          [Update (CallbackQuery 1 (js ''audio_dQw4w9WgXcQ/../../../tmp/x'')), AckDone 0 True,
           InfoDone 0 (InfoTitle (js ''T'')) True] = Some s'
          \<and> files s' (js ''/tmp/x.mp3'') = None"
    by (simp only: e1 e2 e3)
  with h1 h2 h3 h4 h5 cb show ?thesis by (simp add: init_bot_def)
qed

end
